theory Spec2Isabelle
  imports Main "HOL-Library.Sublist"
begin

section \<open>The band-stacking command of \<^verbatim>\<open>rasterio/rio/bands.py\<close>\<close>

text \<open>
  The command \<^verbatim>\<open>stack\<close> pairs every input path with an optional band-selection
  expression, resolves each expression against the input's band list, declares an output
  dataset with the accumulated band count and copies the selected bands to consecutive
  destination bands. The development below embeds the body of \<^verbatim>\<open>stack\<close>
  (lines 75 to 129) piece by piece: the string primitives of Python it calls, the
  resolution step of the first loop, the assembly of the output metadata, the copy loop,
  and the exception handler that turns the outcome into an exit code.
\<close>

subsection \<open>Exceptions\<close>

text \<open>
  Every exception the body can raise is an instance of Python's \<^verbatim>\<open>Exception\<close>.
  The built-in ones are listed by name; \<open>IOFailure\<close> stands for whatever the raster
  library raises when it opens, reads, writes or closes a dataset.
\<close>

datatype error = ValueError | IndexError | KeyError | TypeError | ImportError | IOFailure

subsection \<open>Python's string primitives\<close>

text \<open>
  \<^verbatim>\<open>sub in s\<close>: \<open>sub\<close> occurs in \<open>s\<close> as a contiguous substring.
\<close>

fun py_contains :: "string \<Rightarrow> string \<Rightarrow> bool" where
  "py_contains sub [] = (sub = [])"
| "py_contains sub (c # cs) = (prefix sub (c # cs) \<or> py_contains sub cs)"

text \<open>
  \<^verbatim>\<open>s.split(sep)\<close> for a non-empty separator: the text is scanned from the left,
  every occurrence of the separator closes the current field and the scan resumes right
  after it. \<open>cur\<close> is the field being collected. (Python raises on an empty separator;
  the command only ever passes the literals \<^verbatim>\<open>'..'\<close> and \<^verbatim>\<open>','\<close>.)
\<close>

function split_from :: "string \<Rightarrow> string \<Rightarrow> string \<Rightarrow> string list" where
  "split_from sep cur [] = [cur]"
| "split_from sep cur (c # cs) =
     (if sep \<noteq> [] \<and> prefix sep (c # cs)
      then cur # split_from sep [] (drop (length sep) (c # cs))
      else split_from sep (cur @ [c]) cs)"
  by pat_completeness auto
termination
  by (relation "measure (\<lambda>(sep, cur, s). length s)") auto

definition py_split :: "string \<Rightarrow> string \<Rightarrow> string list" where
  "py_split sep s = split_from sep [] s"

text \<open>
  \<^verbatim>\<open>int(s)\<close> on a string, base ten: surrounding whitespace is stripped, one sign is
  allowed, and at least one decimal digit must follow, nothing else. Anything else raises
  \<^verbatim>\<open>ValueError\<close>. The characters are ASCII and the whitespace is the six ASCII
  whitespace characters; the digit grouping with underscores that later Python versions
  accept is not part of the language versions this module supports.
\<close>

definition is_space :: "char \<Rightarrow> bool" where
  "is_space c = (c \<in> set [CHR '' '', CHR 0x09, CHR 0x0A, CHR 0x0B, CHR 0x0C, CHR 0x0D])"

definition is_digit :: "char \<Rightarrow> bool" where
  "is_digit c = (48 \<le> (of_char c :: nat) \<and> (of_char c :: nat) \<le> 57)"

definition digit_val :: "char \<Rightarrow> int" where
  "digit_val c = int (of_char c) - 48"

definition py_strip :: "string \<Rightarrow> string" where
  "py_strip s = rev (dropWhile is_space (rev (dropWhile is_space s)))"

fun digits_val :: "int \<Rightarrow> string \<Rightarrow> int option" where
  "digits_val acc [] = Some acc"
| "digits_val acc (c # cs) =
     (if is_digit c then digits_val (10 * acc + digit_val c) cs else None)"

definition unsigned_int :: "string \<Rightarrow> error + int" where
  "unsigned_int ds =
     (if ds = [] then Inl ValueError
      else case digits_val 0 ds of None \<Rightarrow> Inl ValueError | Some v \<Rightarrow> Inr v)"

definition py_int :: "string \<Rightarrow> error + int" where
  "py_int s =
     (case py_strip s of
        [] \<Rightarrow> Inl ValueError
      | c # r \<Rightarrow>
          if c = CHR ''-'' then map_sum id uminus (unsigned_int r)
          else if c = CHR ''+'' then unsigned_int r
          else unsigned_int (c # r))"

text \<open>
  \<^verbatim>\<open>xs[slice(start, stop)]\<close> with step one: a negative bound counts from the end of
  the list, every bound is clamped to the list, a missing stop is the end of the list, and
  a stop at or before the start gives the empty list. Slicing never raises.
\<close>

definition slice_bound :: "int \<Rightarrow> int \<Rightarrow> int" where
  "slice_bound n i = (if i < 0 then max (i + n) 0 else min i n)"

definition py_slice :: "'a list \<Rightarrow> int \<Rightarrow> int option \<Rightarrow> 'a list" where
  "py_slice xs start stop =
     (let n = int (length xs);
          lo = slice_bound n start;
          hi = (case stop of None \<Rightarrow> n | Some e \<Rightarrow> slice_bound n e)
      in take (nat (hi - lo)) (drop (nat lo) xs))"

subsection \<open>Data model\<close>

text \<open>
  A resolved selection is what the first loop appends to \<^verbatim>\<open>indexes\<close>: a Python
  \<^verbatim>\<open>int\<close> (one band) or a Python \<^verbatim>\<open>list\<close> of band numbers. The copy loop
  tells the two apart with \<^verbatim>\<open>isinstance\<close>; the same two shapes are what the reader
  and the writer of the raster library accept as band argument.
\<close>

datatype band_index = Single int | Many "int list"

fun bands :: "band_index \<Rightarrow> int list" where
  "bands (Single i) = [i]"
| "bands (Many xs) = xs"

fun contributed :: "band_index \<Rightarrow> int" where
  "contributed (Single i) = 1"
| "contributed (Many xs) = int (length xs)"

text \<open>
  The metadata of a dataset is a dictionary from field names to values. The band count is
  an integer and the driver and the photometric interpretation are strings; the other
  values (dimensions, data type, spatial reference, transform) are opaque here.
\<close>

datatype 'v meta_value = MStr string | MInt int | MOther 'v

type_synonym 'v meta = "string \<Rightarrow> 'v meta_value option"

text \<open>
  A dataset opened for reading offers its band list \<^verbatim>\<open>src.indexes\<close>, its metadata
  \<^verbatim>\<open>src.meta\<close> and \<^verbatim>\<open>src.read(index)\<close>, which returns pixel data or raises.
\<close>

record ('arr, 'v) dataset =
  ds_indexes :: "int list"
  ds_meta :: "'v meta"
  ds_read :: "band_index \<Rightarrow> error + 'arr"

text \<open>
  Modelled from the spec: the property \<^verbatim>\<open>indexes\<close> of the raster library's dataset
  class, which is not part of \<^verbatim>\<open>bands.py\<close>. For an input with \<open>N\<close> bands it is the
  ordered list of the band numbers \<open>1, \<dots>, N\<close>.
\<close>

definition indexes_of :: "nat \<Rightarrow> int list" where
  "indexes_of N = map int [1..<Suc N]"

text \<open>
  The dataset opened for writing is represented by what the command has done to it: the
  metadata it was declared with and the writes applied so far, each with its pixel data
  and its destination band argument.
\<close>

record ('arr, 'v) output_dataset =
  out_meta :: "'v meta"
  out_writes :: "('arr \<times> band_index) list"

definition written_bands :: "('arr, 'v) output_dataset \<Rightarrow> int list" where
  "written_bands d = concat (map (\<lambda>w. bands (snd w)) (out_writes d))"

text \<open>
  The raster library is a parameter: \<open>open_read\<close> is \<^verbatim>\<open>rasterio.open(path)\<close> (the
  path is absent when the pairing of the first loop has run out of inputs),
  \<open>open_write\<close> is \<^verbatim>\<open>rasterio.open(output, 'w', **kwargs)\<close> and \<open>write_bands\<close> is
  \<^verbatim>\<open>dst.write(data, indexes)\<close>; the last two return the exception they raise, if
  any. Entering the driver environment and releasing a handle at the end of a
  \<^verbatim>\<open>with\<close> block have no part in the selection and layout logic; they are not
  among these three operations and are fields of the environment of \<open>stack_command\<close>.
\<close>

record ('arr, 'v) collaborator =
  open_read :: "string option \<Rightarrow> error + ('arr, 'v) dataset"
  open_write :: "string \<Rightarrow> 'v meta \<Rightarrow> error option"
  write_bands :: "('arr, 'v) output_dataset \<Rightarrow> 'arr \<Rightarrow> band_index \<Rightarrow> error option"

text \<open>
  The arguments \<^verbatim>\<open>click\<close> passes to the command. The argument \<^verbatim>\<open>output\<close> is
  the field \<open>output_path\<close>, since \<open>output\<close> is a reserved word of the theory language.
\<close>

record stack_args =
  input :: "string list"
  bidx :: "string list"
  photometric :: "string option"
  output_path :: string
  driver :: string

subsection \<open>First loop: resolving the selections (lines 77 to 100)\<close>

text \<open>
  \<^verbatim>\<open>zip_longest(input, bidx, fillvalue=None)\<close>: the pairing goes on until both
  sequences are exhausted, the shorter one filled with \<^verbatim>\<open>None\<close>.
\<close>

fun zip_longest :: "'a list \<Rightarrow> 'b list \<Rightarrow> ('a option \<times> 'b option) list" where
  "zip_longest [] [] = []"
| "zip_longest (x # xs) [] = (Some x, None) # zip_longest xs []"
| "zip_longest [] (y # ys) = (None, Some y) # zip_longest [] ys"
| "zip_longest (x # xs) (y # ys) = (Some x, Some y) # zip_longest xs ys"

record plan =
  output_count :: int
  indexes :: "band_index list"

text \<open>\<^verbatim>\<open>lambda x: int(x) if x else None\<close>: the empty string is the only false one.\<close>

definition opt_int :: "string \<Rightarrow> error + int option" where
  "opt_int x = (if x \<noteq> [] then map_sum id Some (py_int x) else Inr None)"

text \<open>
  Lines 86 to 89. The unpacking into \<^verbatim>\<open>start, stop\<close> needs exactly two fields and
  raises \<^verbatim>\<open>ValueError\<close> otherwise, the same exception a field that is no integer
  raises; an absent start becomes 1.
\<close>

definition range_bounds :: "string \<Rightarrow> error + (int \<times> int option)" where
  "range_bounds item =
     (case py_split ''..'' item of
        [a, b] \<Rightarrow>
          (case opt_int a of
             Inl e \<Rightarrow> Inl e
           | Inr start \<Rightarrow>
               (case opt_int b of
                  Inl e \<Rightarrow> Inl e
                | Inr stop \<Rightarrow> Inr (case start of None \<Rightarrow> 1 | Some s \<Rightarrow> s, stop)))
      | _ \<Rightarrow> Inl ValueError)"

text \<open>\<^verbatim>\<open>list(map(int, tokens))\<close>: the first token that is no integer raises.\<close>

fun parse_ints :: "string list \<Rightarrow> error + int list" where
  "parse_ints [] = Inr []"
| "parse_ints (t # ts) =
     (case py_int t of
        Inl e \<Rightarrow> Inl e
      | Inr k \<Rightarrow> (case parse_ints ts of Inl e \<Rightarrow> Inl e | Inr ks \<Rightarrow> Inr (k # ks)))"

definition append_index :: "band_index \<Rightarrow> int \<Rightarrow> plan \<Rightarrow> plan" where
  "append_index index n st =
     st\<lparr>indexes := indexes st @ [index], output_count := output_count st + n\<rparr>"

text \<open>
  Lines 82 to 100, the body of the first loop once the input's band list is known: the
  three branches on the expression, each appending one entry to \<^verbatim>\<open>indexes\<close> and
  adding its size to \<^verbatim>\<open>output_count\<close>.
\<close>

definition resolve_entry :: "int list \<Rightarrow> string option \<Rightarrow> plan \<Rightarrow> error + plan" where
  "resolve_entry src_indexes item st =
     (case item of
        None \<Rightarrow> Inr (append_index (Many src_indexes) (int (length src_indexes)) st)
      | Some it \<Rightarrow>
          if py_contains ''..'' it then
            (case range_bounds it of
               Inl e \<Rightarrow> Inl e
             | Inr (start, stop) \<Rightarrow>
                 Inr (append_index (Many (py_slice src_indexes (start - 1) stop))
                        (int (length (py_slice src_indexes (start - 1) stop))) st))
          else
            (case parse_ints (py_split '','' it) of
               Inl e \<Rightarrow> Inl e
             | Inr parts \<Rightarrow>
                 (case parts of
                    [p] \<Rightarrow> Inr (append_index (Single p) 1 st)
                  | _ \<Rightarrow> Inr (append_index (Many parts) (int (length parts)) st))))"

fun resolve_all ::
  "('arr, 'v) collaborator \<Rightarrow> (string option \<times> string option) list \<Rightarrow> plan \<Rightarrow> error + plan"
where
  "resolve_all io [] st = Inr st"
| "resolve_all io ((path, item) # rest) st =
     (case open_read io path of
        Inl e \<Rightarrow> Inl e
      | Inr src \<Rightarrow>
          (case resolve_entry (ds_indexes src) item st of
             Inl e \<Rightarrow> Inl e
           | Inr st' \<Rightarrow> resolve_all io rest st'))"

subsection \<open>Output metadata (lines 102 to 111)\<close>

text \<open>
  The metadata of the first input, with the entry \<^verbatim>\<open>affine\<close> popped and stored
  under \<^verbatim>\<open>transform\<close> (a \<^verbatim>\<open>KeyError\<close> when there is none), then \<^verbatim>\<open>driver\<close> and
  \<^verbatim>\<open>count\<close> set, then \<^verbatim>\<open>photometric\<close> set when the option is true, that is, given
  and not empty.
\<close>

definition output_kwargs ::
  "'v meta \<Rightarrow> string \<Rightarrow> int \<Rightarrow> string option \<Rightarrow> error + 'v meta" where
  "output_kwargs meta drv cnt photo =
     (case meta ''affine'' of
        None \<Rightarrow> Inl KeyError
      | Some a \<Rightarrow>
          (let kwargs = (meta(''affine'' := None))(''transform'' \<mapsto> a);
               kwargs = kwargs(''driver'' \<mapsto> MStr drv, ''count'' \<mapsto> MInt cnt)
           in Inr (case photo of
                     None \<Rightarrow> kwargs
                   | Some ph \<Rightarrow> if ph \<noteq> [] then kwargs(''photometric'' \<mapsto> MStr ph) else kwargs)))"

subsection \<open>Second loop: copying (lines 113 to 124)\<close>

record ('arr, 'v) copy_state =
  dst_idx :: int
  dst :: "('arr, 'v) output_dataset"

text \<open>
  \<^verbatim>\<open>dst.write(data, target)\<close>: when the library raises, the dataset is as it was; when
  it returns, the write is part of the dataset.
\<close>

definition dst_write ::
  "('arr, 'v) collaborator \<Rightarrow> 'arr \<Rightarrow> band_index \<Rightarrow> ('arr, 'v) output_dataset \<Rightarrow>
     error + ('arr, 'v) output_dataset" where
  "dst_write io data target d =
     (case write_bands io d data target of
        Some e \<Rightarrow> Inl e
      | None \<Rightarrow> Inr (d\<lparr>out_writes := out_writes d @ [(data, target)]\<rparr>))"

text \<open>
  Lines 116 to 124, one entry of the plan. The result is the state the entry leaves
  behind and the exception that interrupted it, if any: what has been written stays
  written when a later call raises.
\<close>

definition copy_entry ::
  "('arr, 'v) collaborator \<Rightarrow> string \<Rightarrow> band_index \<Rightarrow> ('arr, 'v) copy_state \<Rightarrow>
     ('arr, 'v) copy_state \<times> error option" where
  "copy_entry io path index cs =
     (case open_read io (Some path) of
        Inl e \<Rightarrow> (cs, Some e)
      | Inr src \<Rightarrow>
          (case index of
             Single i \<Rightarrow>
               (case ds_read src (Single i) of
                  Inl e \<Rightarrow> (cs, Some e)
                | Inr data \<Rightarrow>
                    (case dst_write io data (Single (dst_idx cs)) (dst cs) of
                       Inl e \<Rightarrow> (cs, Some e)
                     | Inr d \<Rightarrow> (cs\<lparr>dst := d, dst_idx := dst_idx cs + 1\<rparr>, None)))
           | Many xs \<Rightarrow>
               (case ds_read src (Many xs) of
                  Inl e \<Rightarrow> (cs, Some e)
                | Inr data \<Rightarrow>
                    (case dst_write io data
                            (Many [dst_idx cs .. dst_idx cs + int (length xs) - 1]) (dst cs) of
                       Inl e \<Rightarrow> (cs, Some e)
                     | Inr d \<Rightarrow>
                         (cs\<lparr>dst := d, dst_idx := dst_idx cs + int (length xs)\<rparr>, None)))))"

fun copy_loop ::
  "('arr, 'v) collaborator \<Rightarrow> (string \<times> band_index) list \<Rightarrow> ('arr, 'v) copy_state \<Rightarrow>
     ('arr, 'v) copy_state \<times> error option" where
  "copy_loop io [] cs = (cs, None)"
| "copy_loop io ((path, index) # rest) cs =
     (case copy_entry io path index cs of
        (cs', Some e) \<Rightarrow> (cs', Some e)
      | (cs', None) \<Rightarrow> copy_loop io rest cs')"

subsection \<open>The try statement (lines 75 to 129)\<close>

text \<open>
  What a run leaves behind: the exit code, the exception the handler logged, and the
  output dataset if the run got as far as creating it.

  The definition \<open>stack\<close> is the try statement of the command, from the first loop to
  the two calls of \<^verbatim>\<open>sys.exit\<close>, with \<open>py_int\<close> for \<^verbatim>\<open>int\<close> and with context
  managers that enter and leave without raising. The layout of the output is studied on
  it. The whole body, with the statements before the try statement and every context
  manager as a place where an exception can be raised, is \<open>stack_command\<close> below.
\<close>

record ('arr, 'v) outcome =
  exit_code :: int
  logged :: "error option"
  result :: "('arr, 'v) output_dataset option"

definition failed :: "error \<Rightarrow> ('arr, 'v) output_dataset option \<Rightarrow> ('arr, 'v) outcome" where
  "failed e d = \<lparr>exit_code = 1, logged = Some e, result = d\<rparr>"

definition plan0 :: plan where
  "plan0 = \<lparr>output_count = 0, indexes = []\<rparr>"

definition stack :: "('arr, 'v) collaborator \<Rightarrow> stack_args \<Rightarrow> ('arr, 'v) outcome" where
  "stack io args =
     (case resolve_all io (zip_longest (input args) (bidx args)) plan0 of
        Inl e \<Rightarrow> failed e None
      | Inr st \<Rightarrow>
          (case input args of
             [] \<Rightarrow> failed IndexError None
           | path0 # _ \<Rightarrow>
               (case open_read io (Some path0) of
                  Inl e \<Rightarrow> failed e None
                | Inr first \<Rightarrow>
                    (case output_kwargs (ds_meta first) (driver args) (output_count st)
                            (photometric args) of
                       Inl e \<Rightarrow> failed e None
                     | Inr kwargs \<Rightarrow>
                         (case open_write io (output_path args) kwargs of
                            Some e \<Rightarrow> failed e None
                          | None \<Rightarrow>
                              (case copy_loop io (zip (input args) (indexes st))
                                      \<lparr>dst_idx = 1,
                                       dst = \<lparr>out_meta = kwargs, out_writes = []\<rparr>\<rparr> of
                                 (cs, Some e) \<Rightarrow> failed e (Some (dst cs))
                               | (cs, None) \<Rightarrow>
                                   \<lparr>exit_code = 0, logged = None,
                                    result = Some (dst cs)\<rparr>))))))"

subsection \<open>The whole body of the command (lines 71 to 129)\<close>

text \<open>
  Everything the body calls that is not written in \<^verbatim>\<open>bands.py\<close>, beyond the three
  operations of the collaborator: each field is what the call returns, or the exception
  it raises.
  \<^item> \<open>import_numpy\<close>: the statement \<^verbatim>\<open>import numpy as np\<close> (line 71);
  \<^item> \<open>ctx_obj\<close>: the object \<^verbatim>\<open>ctx.obj\<close> (line 73), absent when it is false (\<^verbatim>\<open>None\<close>
    or an empty dictionary), otherwise what its \<^verbatim>\<open>get('verbosity')\<close> returns (a number
    or \<^verbatim>\<open>None\<close>) or raises;
  \<^item> \<open>get_logger\<close>: \<^verbatim>\<open>logging.getLogger('rio')\<close> (line 74);
  \<^item> \<open>log_exception\<close>: \<^verbatim>\<open>logger.exception(...)\<close> in the handler (line 128), given
    the exception being handled;
  \<^item> \<open>int_of\<close>: the built-in \<^verbatim>\<open>int\<close> on a string, whose accepted syntax depends on
    the version of Python;
  \<^item> \<open>enter_drivers\<close> and \<open>exit_drivers\<close>: entering (with the value of
    \<^verbatim>\<open>CPL_DEBUG\<close>) and leaving the context manager \<^verbatim>\<open>rasterio.drivers\<close> (line 76);
  \<^item> \<open>close_input\<close> and \<open>close_output\<close>: leaving the \<^verbatim>\<open>with\<close> block of a dataset
    opened for reading (lines 80, 102, 116) and of the output dataset (line 113).
\<close>

record ('arr, 'v) environment =
  import_numpy :: "error option"
  ctx_obj :: "(error + int option) option"
  get_logger :: "error option"
  log_exception :: "error \<Rightarrow> error option"
  int_of :: "string \<Rightarrow> error + int"
  enter_drivers :: "bool \<Rightarrow> error option"
  exit_drivers :: "error option"
  close_input :: "('arr, 'v) dataset \<Rightarrow> error option"
  close_output :: "('arr, 'v) output_dataset \<Rightarrow> error option"

text \<open>
  Line 73, \<^verbatim>\<open>(ctx.obj and ctx.obj.get('verbosity')) or 2\<close>: a false object, an absent
  verbosity and the verbosity 0 all give 2.
\<close>

definition verbosity_of :: "(error + int option) option \<Rightarrow> error + int" where
  "verbosity_of obj =
     (case obj of
        None \<Rightarrow> Inr 2
      | Some got \<Rightarrow>
          (case got of
             Inl e \<Rightarrow> Inl e
           | Inr None \<Rightarrow> Inr 2
           | Inr (Some n) \<Rightarrow> Inr (if n \<noteq> 0 then n else 2)))"

text \<open>
  The end of a \<^verbatim>\<open>with\<close> block: the context manager is left whether the block raised
  or not, and an exception raised on leaving replaces the outcome of the block.
\<close>

definition leaving :: "error option \<Rightarrow> error option \<Rightarrow> error option" where
  "leaving closed raised = (case closed of Some e \<Rightarrow> Some e | None \<Rightarrow> raised)"

text \<open>
  The first loop again (lines 79 to 100), with \<^verbatim>\<open>int\<close> as a parameter and with the
  input closed once its band list is read.
\<close>

definition opt_int_with :: "(string \<Rightarrow> error + int) \<Rightarrow> string \<Rightarrow> error + int option" where
  "opt_int_with f x = (if x \<noteq> [] then map_sum id Some (f x) else Inr None)"

definition range_bounds_with ::
  "(string \<Rightarrow> error + int) \<Rightarrow> string \<Rightarrow> error + (int \<times> int option)" where
  "range_bounds_with f item =
     (case py_split ''..'' item of
        [a, b] \<Rightarrow>
          (case opt_int_with f a of
             Inl e \<Rightarrow> Inl e
           | Inr start \<Rightarrow>
               (case opt_int_with f b of
                  Inl e \<Rightarrow> Inl e
                | Inr stop \<Rightarrow> Inr (case start of None \<Rightarrow> 1 | Some s \<Rightarrow> s, stop)))
      | _ \<Rightarrow> Inl ValueError)"

fun parse_ints_with :: "(string \<Rightarrow> error + int) \<Rightarrow> string list \<Rightarrow> error + int list" where
  "parse_ints_with f [] = Inr []"
| "parse_ints_with f (t # ts) =
     (case f t of
        Inl e \<Rightarrow> Inl e
      | Inr k \<Rightarrow> (case parse_ints_with f ts of Inl e \<Rightarrow> Inl e | Inr ks \<Rightarrow> Inr (k # ks)))"

definition resolve_entry_with ::
  "(string \<Rightarrow> error + int) \<Rightarrow> int list \<Rightarrow> string option \<Rightarrow> plan \<Rightarrow> error + plan" where
  "resolve_entry_with f src_indexes item st =
     (case item of
        None \<Rightarrow> Inr (append_index (Many src_indexes) (int (length src_indexes)) st)
      | Some it \<Rightarrow>
          if py_contains ''..'' it then
            (case range_bounds_with f it of
               Inl e \<Rightarrow> Inl e
             | Inr (start, stop) \<Rightarrow>
                 Inr (append_index (Many (py_slice src_indexes (start - 1) stop))
                        (int (length (py_slice src_indexes (start - 1) stop))) st))
          else
            (case parse_ints_with f (py_split '','' it) of
               Inl e \<Rightarrow> Inl e
             | Inr parts \<Rightarrow>
                 (case parts of
                    [p] \<Rightarrow> Inr (append_index (Single p) 1 st)
                  | _ \<Rightarrow> Inr (append_index (Many parts) (int (length parts)) st))))"

fun resolve_all_with ::
  "('arr, 'v) environment \<Rightarrow> ('arr, 'v) collaborator \<Rightarrow>
     (string option \<times> string option) list \<Rightarrow> plan \<Rightarrow> error + plan"
where
  "resolve_all_with env io [] st = Inr st"
| "resolve_all_with env io ((path, item) # rest) st =
     (case open_read io path of
        Inl e \<Rightarrow> Inl e
      | Inr src \<Rightarrow>
          (case close_input env src of
             Some e \<Rightarrow> Inl e
           | None \<Rightarrow>
               (case resolve_entry_with (int_of env) (ds_indexes src) item st of
                  Inl e \<Rightarrow> Inl e
                | Inr st' \<Rightarrow> resolve_all_with env io rest st')))"

text \<open>
  Lines 117 to 124, the block of one entry of the copy loop on the opened input, and
  lines 116 to 124, the entry with its input opened and closed.
\<close>

definition copy_bands ::
  "('arr, 'v) collaborator \<Rightarrow> ('arr, 'v) dataset \<Rightarrow> band_index \<Rightarrow> ('arr, 'v) copy_state \<Rightarrow>
     ('arr, 'v) copy_state \<times> error option" where
  "copy_bands io src index cs =
     (case index of
        Single i \<Rightarrow>
          (case ds_read src (Single i) of
             Inl e \<Rightarrow> (cs, Some e)
           | Inr data \<Rightarrow>
               (case dst_write io data (Single (dst_idx cs)) (dst cs) of
                  Inl e \<Rightarrow> (cs, Some e)
                | Inr d \<Rightarrow> (cs\<lparr>dst := d, dst_idx := dst_idx cs + 1\<rparr>, None)))
      | Many xs \<Rightarrow>
          (case ds_read src (Many xs) of
             Inl e \<Rightarrow> (cs, Some e)
           | Inr data \<Rightarrow>
               (case dst_write io data
                       (Many [dst_idx cs .. dst_idx cs + int (length xs) - 1]) (dst cs) of
                  Inl e \<Rightarrow> (cs, Some e)
                | Inr d \<Rightarrow> (cs\<lparr>dst := d, dst_idx := dst_idx cs + int (length xs)\<rparr>, None))))"

definition copy_entry_with ::
  "('arr, 'v) environment \<Rightarrow> ('arr, 'v) collaborator \<Rightarrow> string \<Rightarrow> band_index \<Rightarrow>
     ('arr, 'v) copy_state \<Rightarrow> ('arr, 'v) copy_state \<times> error option" where
  "copy_entry_with env io path index cs =
     (case open_read io (Some path) of
        Inl e \<Rightarrow> (cs, Some e)
      | Inr src \<Rightarrow>
          (case copy_bands io src index cs of
             (cs', raised) \<Rightarrow> (cs', leaving (close_input env src) raised)))"

fun copy_loop_with ::
  "('arr, 'v) environment \<Rightarrow> ('arr, 'v) collaborator \<Rightarrow> (string \<times> band_index) list \<Rightarrow>
     ('arr, 'v) copy_state \<Rightarrow> ('arr, 'v) copy_state \<times> error option" where
  "copy_loop_with env io [] cs = (cs, None)"
| "copy_loop_with env io ((path, index) # rest) cs =
     (case copy_entry_with env io path index cs of
        (cs', Some e) \<Rightarrow> (cs', Some e)
      | (cs', None) \<Rightarrow> copy_loop_with env io rest cs')"

text \<open>
  Lines 77 to 124, the block of the driver environment: the exception it raises, if any,
  and the output dataset it leaves. The metadata is taken and \<^verbatim>\<open>affine\<close> popped inside
  the block of the first input (lines 102 to 104), which is closed before the output is
  created.
\<close>

definition stack_body ::
  "('arr, 'v) environment \<Rightarrow> ('arr, 'v) collaborator \<Rightarrow> stack_args \<Rightarrow>
     error option \<times> ('arr, 'v) output_dataset option" where
  "stack_body env io args =
     (case resolve_all_with env io (zip_longest (input args) (bidx args)) plan0 of
        Inl e \<Rightarrow> (Some e, None)
      | Inr st \<Rightarrow>
          (case input args of
             [] \<Rightarrow> (Some IndexError, None)
           | path0 # _ \<Rightarrow>
               (case open_read io (Some path0) of
                  Inl e \<Rightarrow> (Some e, None)
                | Inr first \<Rightarrow>
                    (case close_input env first of
                       Some e \<Rightarrow> (Some e, None)
                     | None \<Rightarrow>
                         (case output_kwargs (ds_meta first) (driver args) (output_count st)
                                 (photometric args) of
                            Inl e \<Rightarrow> (Some e, None)
                          | Inr kwargs \<Rightarrow>
                              (case open_write io (output_path args) kwargs of
                                 Some e \<Rightarrow> (Some e, None)
                               | None \<Rightarrow>
                                   (case copy_loop_with env io (zip (input args) (indexes st))
                                           \<lparr>dst_idx = 1,
                                            dst = \<lparr>out_meta = kwargs, out_writes = []\<rparr>\<rparr> of
                                      (cs, raised) \<Rightarrow>
                                        (leaving (close_output env (dst cs)) raised,
                                         Some (dst cs)))))))))"

text \<open>Lines 76 to 124, the statement \<^verbatim>\<open>with rasterio.drivers(CPL_DEBUG=verbosity>2)\<close>.\<close>

definition try_block ::
  "('arr, 'v) environment \<Rightarrow> ('arr, 'v) collaborator \<Rightarrow> stack_args \<Rightarrow> int \<Rightarrow>
     error option \<times> ('arr, 'v) output_dataset option" where
  "try_block env io args verbosity =
     (case enter_drivers env (2 < verbosity) of
        Some e \<Rightarrow> (Some e, None)
      | None \<Rightarrow>
          (case stack_body env io args of
             (raised, d) \<Rightarrow> (leaving (exit_drivers env) raised, d)))"

text \<open>
  Lines 71 to 129. The result is \<open>Inl e\<close> when the exception \<open>e\<close> leaves the command, and
  \<open>Inr\<close> of the outcome when the command ends in one of its two calls of
  \<^verbatim>\<open>sys.exit\<close>, whose \<^verbatim>\<open>SystemExit\<close> is no \<^verbatim>\<open>Exception\<close> and passes the handler.
\<close>

definition stack_command ::
  "('arr, 'v) environment \<Rightarrow> ('arr, 'v) collaborator \<Rightarrow> stack_args \<Rightarrow>
     error + ('arr, 'v) outcome" where
  "stack_command env io args =
     (case import_numpy env of
        Some e \<Rightarrow> Inl e
      | None \<Rightarrow>
          (case verbosity_of (ctx_obj env) of
             Inl e \<Rightarrow> Inl e
           | Inr verbosity \<Rightarrow>
               (case get_logger env of
                  Some e \<Rightarrow> Inl e
                | None \<Rightarrow>
                    (case try_block env io args verbosity of
                       (None, d) \<Rightarrow> Inr \<lparr>exit_code = 0, logged = None, result = d\<rparr>
                     | (Some e, d) \<Rightarrow>
                         (case log_exception env e of
                            Some e' \<Rightarrow> Inl e'
                          | None \<Rightarrow> Inr \<lparr>exit_code = 1, logged = Some e, result = d\<rparr>)))))"

subsection \<open>Writing selection expressions\<close>

text \<open>
  The characters an integer token is made of: whitespace, a sign, decimal digits.
\<close>

definition int_char :: "char \<Rightarrow> bool" where
  "int_char c = (is_space c \<or> c = CHR ''-'' \<or> c = CHR ''+'' \<or> is_digit c)"

text \<open>
  \<^verbatim>\<open>','.join(ts)\<close>: the text of a list expression whose tokens are \<open>ts\<close>. A range
  expression with the tokens \<open>a\<close> and \<open>b\<close> is written \<open>a @ ''..'' @ b\<close>.
\<close>

fun comma_join :: "string list \<Rightarrow> string" where
  "comma_join [] = []"
| "comma_join [t] = t"
| "comma_join (t # u # ts) = t @ '','' @ comma_join (u # ts)"

text \<open>
  The decimal numeral of a natural number, as Python's \<^verbatim>\<open>str\<close> writes it: the
  canonical token for a band number.
\<close>

fun decimal :: "nat \<Rightarrow> string" where
  "decimal n =
     (if n < 10 then [char_of (48 + n)]
      else decimal (n div 10) @ [char_of (48 + n mod 10)])"


subsection \<open>A dataset to run the command on\<close>

text \<open>
  The three-band dataset of the examples in the command's help text. Its pixels are not
  modelled: reading returns the numbers of the bands read, and fails for a band the
  dataset does not have. The library opens this one path, refuses an absent path, and
  accepts every write.
\<close>

definition rgb_byte :: "(int list, nat) dataset" where
  "rgb_byte =
     \<lparr>ds_indexes = indexes_of 3,
      ds_meta = [''driver'' \<mapsto> MStr ''GTiff'', ''count'' \<mapsto> MInt 3,
                 ''dtype'' \<mapsto> MStr ''uint8'', ''affine'' \<mapsto> MOther 1,
                 ''transform'' \<mapsto> MOther 0],
      ds_read = (\<lambda>index. if list_all (\<lambda>i. 1 \<le> i \<and> i \<le> 3) (bands index)
                          then Inr (bands index) else Inl IndexError)\<rparr>"

definition rio :: "(int list, nat) collaborator" where
  "rio =
     \<lparr>open_read = (\<lambda>path. case path of
                      None \<Rightarrow> Inl TypeError
                    | Some p \<Rightarrow> if p = ''RGB.byte.tif'' then Inr rgb_byte else Inl IOFailure),
      open_write = (\<lambda>path kwargs. None),
      write_bands = (\<lambda>d data target. None)\<rparr>"

definition stacked_kwargs :: "nat meta" where
  "stacked_kwargs =
     [''driver'' \<mapsto> MStr ''GTiff'', ''count'' \<mapsto> MInt 3, ''dtype'' \<mapsto> MStr ''uint8'',
      ''transform'' \<mapsto> MOther 1]"

text \<open>
  Three invocations: the last example of the help text, which stacks the first two bands
  and the third band of the same file; one whose second selection asks for a band the
  file does not have; one whose selection is no expression at all.
\<close>

definition two_halves :: stack_args where
  "two_halves =
     \<lparr>input = [''RGB.byte.tif'', ''RGB.byte.tif''], bidx = [''..2'', ''3..''],
      photometric = None, output_path = ''stacked.tif'', driver = ''GTiff''\<rparr>"

definition no_such_band :: stack_args where
  "no_such_band =
     \<lparr>input = [''RGB.byte.tif'', ''RGB.byte.tif''], bidx = [''2,1'', ''4''],
      photometric = None, output_path = ''stacked.tif'', driver = ''GTiff''\<rparr>"

definition no_expression :: stack_args where
  "no_expression =
     \<lparr>input = [''RGB.byte.tif''], bidx = [''all''],
      photometric = None, output_path = ''stacked.tif'', driver = ''GTiff''\<rparr>"

text \<open>
  Three environments: one in which nothing outside \<^verbatim>\<open>bands.py\<close> raises and
  \<^verbatim>\<open>int\<close> is \<open>py_int\<close>; one in which \<^verbatim>\<open>numpy\<close> cannot be imported; one in which
  closing the output fails. And a library that refuses every write.
\<close>

definition plain :: "('arr, 'v) environment" where
  "plain =
     \<lparr>import_numpy = None, ctx_obj = None, get_logger = None,
      log_exception = (\<lambda>e. None), int_of = py_int,
      enter_drivers = (\<lambda>debug. None), exit_drivers = None,
      close_input = (\<lambda>src. None), close_output = (\<lambda>d. None)\<rparr>"

definition numpy_missing :: "('arr, 'v) environment" where
  "numpy_missing = plain\<lparr>import_numpy := Some ImportError\<rparr>"

definition close_fails :: "('arr, 'v) environment" where
  "close_fails = plain\<lparr>close_output := (\<lambda>d. Some IOFailure)\<rparr>"

definition read_only :: "(int list, nat) collaborator" where
  "read_only = rio\<lparr>write_bands := (\<lambda>d data target. Some IOFailure)\<rparr>"

section \<open>Properties\<close>

subsection \<open>Strings\<close>

lemmas int_defs =
  py_int_def py_strip_def is_space_def unsigned_int_def is_digit_def digit_val_def

lemma py_contains_subset: "py_contains sub s \<Longrightarrow> set sub \<subseteq> set s"
proof (induction s)
  case Nil
  then show ?case by simp
next
  case (Cons c cs)
  from Cons.prems have "prefix sub (c # cs) \<or> py_contains sub cs" by simp
  then show ?case
  proof
    assume "prefix sub (c # cs)"
    then show ?thesis by (rule set_mono_prefix)
  next
    assume "py_contains sub cs"
    then have "set sub \<subseteq> set cs" by (rule Cons.IH)
    then show ?thesis by auto
  qed
qed

lemma py_contains_append: "py_contains sub (a @ sub @ b)"
proof (induction a)
  case Nil
  show ?case
  proof (cases "sub @ b")
    case Nil
    then show ?thesis by simp
  next
    case (Cons c cs)
    have "prefix sub (sub @ b)" by simp
    then show ?thesis by (simp add: Cons)
  qed
next
  case (Cons x a)
  then show ?case by simp
qed

lemma split_from_no_sep: "d \<notin> set s \<Longrightarrow> split_from (d # ds) cur s = [cur @ s]"
  by (induction s arbitrary: cur) auto

lemma split_from_sep:
  "d \<notin> set a \<Longrightarrow> split_from (d # ds) cur (a @ (d # ds) @ b) = (cur @ a) # split_from (d # ds) [] b"
  by (induction a arbitrary: cur) auto

lemma digits_val_digits: "digits_val acc ds = Some v \<Longrightarrow> \<forall>c\<in>set ds. is_digit c"
  by (induction ds arbitrary: acc) (auto split: if_splits)

lemma unsigned_int_digits: "unsigned_int ds = Inr v \<Longrightarrow> ds \<noteq> [] \<and> (\<forall>c\<in>set ds. is_digit c)"
  by (auto simp: unsigned_int_def split: if_splits option.splits dest: digits_val_digits)

lemma set_strip: "set s \<subseteq> {c. is_space c} \<union> set (py_strip s)"
proof -
  let ?u = "dropWhile is_space s"
  have 1: "set s = set (takeWhile is_space s) \<union> set ?u"
    by (metis set_append takeWhile_dropWhile_id)
  have 2: "set ?u = set (takeWhile is_space (rev ?u)) \<union> set (py_strip s)"
    unfolding py_strip_def by (metis set_append set_rev takeWhile_dropWhile_id)
  show ?thesis using 1 2 by (auto dest: set_takeWhileD)
qed

lemma py_int_chars: "py_int s = Inr k \<Longrightarrow> s \<noteq> [] \<and> (\<forall>c\<in>set s. int_char c)"
proof (cases "py_strip s")
  case Nil
  assume "py_int s = Inr k"
  with Nil show ?thesis by (simp add: py_int_def)
next
  case (Cons c r)
  assume k: "py_int s = Inr k"
  have ne: "s \<noteq> []" using Cons by (auto simp: py_strip_def)
  have "\<forall>x\<in>set (c # r). int_char x"
    using k Cons
    by (auto simp: py_int_def int_char_def map_sum_def split: if_splits sum.splits dest!: unsigned_int_digits)
  then show ?thesis using set_strip[of s] ne Cons by (auto simp: int_char_def)
qed

lemma py_int_no_dot: "py_int s = Inr k \<Longrightarrow> CHR ''.'' \<notin> set s"
  by (auto dest!: py_int_chars simp: int_char_def is_space_def is_digit_def)

lemma py_int_no_comma: "py_int s = Inr k \<Longrightarrow> CHR '','' \<notin> set s"
  by (auto dest!: py_int_chars simp: int_char_def is_space_def is_digit_def)

lemma py_int_nonempty: "py_int s = Inr k \<Longrightarrow> s \<noteq> []"
  by (auto dest: py_int_chars)

lemma py_split_range:
  assumes "CHR ''.'' \<notin> set a" "CHR ''.'' \<notin> set b"
  shows "py_split ''..'' (a @ ''..'' @ b) = [a, b]"
proof -
  have "split_from (CHR ''.'' # ''.'') [] (a @ (CHR ''.'' # ''.'') @ b)
          = ([] @ a) # split_from (CHR ''.'' # ''.'') [] b"
    using assms(1) by (rule split_from_sep)
  moreover have "split_from (CHR ''.'' # ''.'') [] b = ([] @ b) # []"
    using assms(2) by (rule split_from_no_sep)
  ultimately show ?thesis by (simp add: py_split_def)
qed

lemma split_comma_join:
  "ts \<noteq> [] \<Longrightarrow> \<forall>t\<in>set ts. CHR '','' \<notin> set t \<Longrightarrow>
     split_from '','' cur (comma_join ts) = (cur @ hd ts) # tl ts"
proof (induction ts arbitrary: cur rule: comma_join.induct)
  case 1
  then show ?case by simp
next
  case (2 t)
  then show ?case using split_from_no_sep[of "CHR '',''" t "[]" cur] by simp
next
  case (3 t u ts)
  have "split_from (CHR '','' # []) cur (t @ (CHR '','' # []) @ comma_join (u # ts))
          = (cur @ t) # split_from (CHR '','' # []) [] (comma_join (u # ts))"
    using 3(3) by (intro split_from_sep) simp
  moreover have "split_from '','' [] (comma_join (u # ts)) = ([] @ hd (u # ts)) # tl (u # ts)"
    using 3(3) by (intro 3(1)) auto
  ultimately show ?case by simp
qed

lemma comma_join_set: "set (comma_join ts) \<subseteq> insert (CHR '','') (\<Union>t\<in>set ts. set t)"
  by (induction ts rule: comma_join.induct) auto

text \<open>
  Every natural number has an integer token: its decimal numeral parses back to it.
\<close>

declare decimal.simps [simp del]

lemma digits_val_append:
  "digits_val acc (xs @ ys) =
     (case digits_val acc xs of None \<Rightarrow> None | Some v \<Rightarrow> digits_val v ys)"
  by (induction xs arbitrary: acc) auto

lemma digit_char:
  assumes "d < 10"
  shows "is_digit (char_of (48 + d))" and "digit_val (char_of (48 + d)) = int d"
    and "\<not> is_space (char_of (48 + d))" and "char_of (48 + d) \<noteq> CHR ''-''"
    and "char_of (48 + d) \<noteq> CHR ''+''"
proof -
  have v: "(of_char (char_of (48 + d)) :: nat) = 48 + d"
    using assms by simp
  show "is_digit (char_of (48 + d))" unfolding is_digit_def v using assms by simp
  show "digit_val (char_of (48 + d)) = int d" unfolding digit_val_def v by simp
  have ne: "char_of (48 + d) \<noteq> c" if "(of_char c :: nat) < 48" for c
  proof
    assume "char_of (48 + d) = c"
    then have "(of_char c :: nat) = 48 + d" using v by simp
    with that show False by simp
  qed
  have "char_of (48 + d) \<noteq> CHR '' ''" "char_of (48 + d) \<noteq> CHR 0x09"
    "char_of (48 + d) \<noteq> CHR 0x0A" "char_of (48 + d) \<noteq> CHR 0x0B"
    "char_of (48 + d) \<noteq> CHR 0x0C" "char_of (48 + d) \<noteq> CHR 0x0D"
    by (rule ne, simp)+
  then show "\<not> is_space (char_of (48 + d))"
    unfolding is_space_def by simp
  show "char_of (48 + d) \<noteq> CHR ''-''" by (rule ne) simp
  show "char_of (48 + d) \<noteq> CHR ''+''" by (rule ne) simp
qed

lemma decimal_digits: "decimal n \<noteq> [] \<and> (\<forall>c\<in>set (decimal n). is_digit c \<and> \<not> is_space c)"
proof (induction n rule: decimal.induct)
  case (1 n)
  show ?case
  proof (cases "n < 10")
    case True
    then show ?thesis
      using digit_char(1,3)[of n] by (simp add: decimal.simps[of n])
  next
    case False
    have "n mod 10 < 10" by simp
    then show ?thesis
      using False 1 digit_char(1,3)[of "n mod 10"] by (simp add: decimal.simps[of n])
  qed
qed

lemma digits_val_decimal: "digits_val 0 (decimal n) = Some (int n)"
proof (induction n rule: decimal.induct)
  case (1 n)
  show ?case
  proof (cases "n < 10")
    case True
    then show ?thesis
      using digit_char(1,2)[of n] by (simp add: decimal.simps[of n])
  next
    case False
    have "n mod 10 < 10" by simp
    from digit_char(1,2)[OF this] False 1 show ?thesis
      by (simp add: decimal.simps[of n] digits_val_append) presburger
  qed
qed

lemma py_strip_id:
  assumes "\<forall>c\<in>set s. \<not> is_space c"
  shows "py_strip s = s"
proof -
  have keep: "dropWhile is_space xs = xs" if "\<forall>c\<in>set xs. \<not> is_space c" for xs
    using that by (cases xs) auto
  have "dropWhile is_space s = s"
    using assms by (rule keep)
  moreover have "dropWhile is_space (rev s) = rev s"
    using assms by (intro keep) simp
  ultimately show ?thesis by (simp add: py_strip_def)
qed

lemma py_int_decimal: "py_int (decimal n) = Inr (int n)"
proof -
  note D = decimal_digits[of n]
  then obtain c r where cr: "decimal n = c # r" by (cases "decimal n") auto
  have s: "py_strip (decimal n) = c # r"
    using D py_strip_id[of "decimal n"] cr by simp
  have "is_digit c" using D cr by simp
  then have "c \<noteq> CHR ''-''" "c \<noteq> CHR ''+''"
    by (auto simp: is_digit_def)
  moreover have "unsigned_int (c # r) = Inr (int n)"
    using digits_val_decimal[of n] unfolding cr by (simp add: unsigned_int_def)
  ultimately show ?thesis
    unfolding py_int_def s by simp
qed

subsection \<open>Lists and slices\<close>

lemma map_int_upt: "map int [m..<Suc n] = [int m..int n]"
proof (induction n)
  case 0
  show ?case by (cases m) auto
next
  case (Suc n)
  show ?case
  proof (cases "m \<le> Suc n")
    case True
    then have "[int m..int (Suc n)] = [int m..int n] @ [int (Suc n)]"
      using upto_rec2[of "int m" "int (Suc n)"] by simp
    with True Suc show ?thesis by simp
  next
    case False
    then show ?thesis by simp
  qed
qed

lemma indexes_of_upto: "indexes_of N = [1..int N]"
  using map_int_upt[of 1 N] by (simp add: indexes_of_def)

lemma py_slice_indexes_of:
  assumes "1 \<le> M" "M \<le> O'" "O' \<le> N"
  shows "py_slice (indexes_of N) (int M - 1) (Some (int O')) = [int M..int O']"
proof -
  have "nat (int O' - (int M - 1)) = Suc O' - M" "nat (int M - 1) = M - 1"
    using assms by auto
  moreover have "take (Suc O' - M) (drop (M - 1) [1..<Suc N]) = [M..<Suc O']"
  proof -
    have "drop (M - 1) [1..<Suc N] = [M..<Suc N]"
      using assms by (simp only: drop_upt) simp
    moreover have "take (Suc O' - M) [M..<Suc N] = [M..<M + (Suc O' - M)]"
      using assms by (intro take_upt) simp
    ultimately show ?thesis using assms by (simp del: upt_Suc)
  qed
  ultimately have "py_slice (indexes_of N) (int M - 1) (Some (int O')) = map int [M..<Suc O']"
    using assms by (simp add: py_slice_def slice_bound_def indexes_of_def take_map drop_map
        del: upt_Suc)
  then show ?thesis by (simp only: map_int_upt)
qed

lemma py_slice_empty:
  assumes "0 \<le> k" "k < m"
  shows "py_slice xs (m - 1) (Some k) = []"
  using assms by (simp add: py_slice_def slice_bound_def Let_def)

lemma py_slice_subset: "set (py_slice xs i j) \<subseteq> set xs"
  unfolding py_slice_def Let_def
  by (meson order_trans set_take_subset set_drop_subset)

lemma py_slice_to_end: "py_slice xs i (Some (int (length xs))) = py_slice xs i None"
  by (simp add: py_slice_def slice_bound_def)

lemma py_slice_clamped_stop:
  assumes "1 \<le> m" "int N \<le> k"
  shows "py_slice (indexes_of N) (m - 1) (Some k) = [m..int N]"
proof (cases "m \<le> int N")
  case True
  define M where "M = nat m"
  have M: "m = int M" "1 \<le> M" "M \<le> N"
    using assms(1) True by (auto simp: M_def)
  have "drop (M - 1) [1..<Suc N] = [M..<Suc N]"
    using M by (simp only: drop_upt) simp
  then have "py_slice (indexes_of N) (int M - 1) (Some k) = map int [M..<Suc N]"
    using M assms(2)
    by (simp add: py_slice_def slice_bound_def indexes_of_def drop_map nat_diff_distrib'
        del: upt_Suc)
  then show ?thesis using M by (simp only: map_int_upt)
next
  case False
  then show ?thesis
    using assms by (simp add: py_slice_def slice_bound_def indexes_of_def)
qed

lemma upto_append:
  fixes i j k :: int
  assumes "i \<le> j" "j \<le> k"
  shows "[i..j - 1] @ [j..k - 1] = [i..k - 1]"
proof (cases "j = k")
  case True
  then show ?thesis by simp
next
  case False
  with assms have "j \<le> k - 1" by simp
  with assms(1) show ?thesis using upto_split1[of i j "k - 1"] by simp
qed

lemma map_snd_zip_take: "map snd (zip xs ys) = take (length xs) ys"
  by (induction xs ys rule: list_induct2') auto

subsection \<open>The first loop\<close>

lemma opt_int_token: "py_int a = Inr m \<Longrightarrow> opt_int a = Inr (Some m)"
  by (auto simp: opt_int_def dest: py_int_nonempty)

lemma range_bounds_tokens:
  assumes "py_int a = Inr m" "py_int b = Inr k"
  shows "range_bounds (a @ ''..'' @ b) = Inr (m, Some k)"
proof -
  have "py_split ''..'' (a @ ''..'' @ b) = [a, b]"
    using assms by (intro py_split_range py_int_no_dot)
  then show ?thesis
    using assms by (simp add: range_bounds_def opt_int_token)
qed

lemma range_bounds_open_end:
  assumes "py_int a = Inr m"
  shows "range_bounds (a @ ''..'') = Inr (m, None)"
proof -
  have "CHR ''.'' \<notin> set a" using assms by (rule py_int_no_dot)
  then have "py_split ''..'' (a @ ''..'' @ []) = [a, []]"
    by (intro py_split_range) simp_all
  then show ?thesis
    using assms by (simp add: range_bounds_def opt_int_token) (simp add: opt_int_def)
qed

lemma range_bounds_open_start: "range_bounds (''..'' @ b) = range_bounds (''1..'' @ b)"
proof -
  have 1: "py_split ''..'' (''..'' @ b) = [] # split_from ''..'' [] b"
    by (simp add: py_split_def)
  have 2: "py_split ''..'' (''1..'' @ b) = ''1'' # split_from ''..'' [] b"
    by (simp add: py_split_def)
  have 3: "opt_int ''1'' = Inr (Some 1)"
    by (simp add: opt_int_def int_defs)
  have 4: "opt_int [] = Inr None"
    by (simp add: opt_int_def)
  show ?thesis
    unfolding range_bounds_def 1 2
    by (simp add: 3 4 split: list.splits sum.splits)
qed

lemma parse_ints_tokens:
  "list_all2 (\<lambda>t k. py_int t = Inr k) ts ks \<Longrightarrow> parse_ints ts = Inr ks"
  by (induction ts ks rule: list_all2_induct) auto

lemma resolve_entry_range:
  assumes "py_int a = Inr m" "py_int b = Inr k"
  shows "resolve_entry src (Some (a @ ''..'' @ b)) st =
           Inr (append_index (Many (py_slice src (m - 1) (Some k)))
                  (int (length (py_slice src (m - 1) (Some k)))) st)"
proof -
  have "py_contains ''..'' (a @ ''..'' @ b)" by (rule py_contains_append)
  then show ?thesis
    using range_bounds_tokens[OF assms] by (simp add: resolve_entry_def)
qed

lemma resolve_entry_list:
  assumes toks: "list_all2 (\<lambda>t k. py_int t = Inr k) ts ks" and ne: "ts \<noteq> []"
  shows "resolve_entry src (Some (comma_join ts)) st =
           Inr (case ks of [p] \<Rightarrow> append_index (Single p) 1 st
                | _ \<Rightarrow> append_index (Many ks) (int (length ks)) st)"
proof -
  have each: "\<forall>t\<in>set ts. \<exists>k. py_int t = Inr k"
    using toks by (auto simp: list_all2_conv_all_nth in_set_conv_nth)
  have "CHR ''.'' \<notin> set (comma_join ts)"
    using comma_join_set[of ts] each by (auto dest: py_int_no_dot)
  then have nodots: "\<not> py_contains ''..'' (comma_join ts)"
    by (auto dest: py_contains_subset)
  have "\<forall>t\<in>set ts. CHR '','' \<notin> set t"
    using each by (auto dest: py_int_no_comma)
  then have "py_split '','' (comma_join ts) = ts"
    using ne split_comma_join[of ts "[]"] by (simp add: py_split_def)
  then show ?thesis
    using nodots parse_ints_tokens[OF toks]
    by (simp add: resolve_entry_def split: list.splits)
qed

lemma resolve_entry_token:
  assumes "py_int t = Inr k"
  shows "resolve_entry src (Some t) st = Inr (append_index (Single k) 1 st)"
  using resolve_entry_list[of "[t]" "[k]" src st] assms by simp

lemma resolve_entry_range_list:
  assumes "py_contains ''..'' item" and "resolve_entry src (Some item) st = Inr st'"
  shows "\<exists>xs. indexes st' = indexes st @ [Many xs] \<and>
              output_count st' = output_count st + int (length xs)"
  using assms
  by (auto simp: resolve_entry_def append_index_def split: sum.splits prod.splits)

lemma resolve_entry_count:
  assumes "resolve_entry src item st = Inr st'"
  shows "\<exists>index. indexes st' = indexes st @ [index] \<and>
                  output_count st' = output_count st + contributed index"
  using assms
  by (auto simp: resolve_entry_def append_index_def
      split: option.splits if_splits sum.splits list.splits prod.splits)

lemma resolve_all_count:
  "resolve_all io pairs st = Inr st' \<Longrightarrow>
     \<exists>ixs. indexes st' = indexes st @ ixs \<and> length ixs = length pairs \<and>
           output_count st' = output_count st + sum_list (map contributed ixs)"
proof (induction pairs arbitrary: st)
  case Nil
  then show ?case by simp
next
  case (Cons p pairs)
  obtain path item where p: "p = (path, item)" by (cases p)
  from Cons.prems p obtain src st1 where
    o: "open_read io path = Inr src" and
    r: "resolve_entry (ds_indexes src) item st = Inr st1" and
    l: "resolve_all io pairs st1 = Inr st'"
    by (auto split: sum.splits)
  from resolve_entry_count[OF r] obtain index where
    i: "indexes st1 = indexes st @ [index]"
       "output_count st1 = output_count st + contributed index" by blast
  from Cons.IH[OF l] obtain ixs where
    x: "indexes st' = indexes st1 @ ixs" "length ixs = length pairs"
       "output_count st' = output_count st1 + sum_list (map contributed ixs)" by blast
  show ?case
    by (rule exI[of _ "index # ixs"]) (simp add: i x)
qed

lemma resolve_all_paths:
  "resolve_all io pairs st = Inr st' \<Longrightarrow> (p, item) \<in> set pairs \<Longrightarrow>
     \<exists>src. open_read io p = Inr src"
proof (induction pairs arbitrary: st)
  case Nil
  then show ?case by simp
next
  case (Cons q pairs)
  obtain path it where q: "q = (path, it)" by (cases q)
  from Cons.prems(1) q obtain src st1 where
    o: "open_read io path = Inr src" and
    l: "resolve_all io pairs st1 = Inr st'"
    by (auto split: sum.splits)
  from Cons.prems(2) q have "(p, item) = (path, it) \<or> (p, item) \<in> set pairs" by auto
  then show ?case using o Cons.IH[OF l] by auto
qed

lemma length_zip_longest: "length (zip_longest xs ys) = max (length xs) (length ys)"
  by (induction xs ys rule: zip_longest.induct) auto

lemma zip_longest_None:
  "length xs < length ys \<Longrightarrow> \<exists>y. (None, Some y) \<in> set (zip_longest xs ys)"
  by (induction xs ys rule: zip_longest.induct) auto

subsection \<open>The output metadata, the copy loop and the command\<close>

lemma output_kwargs_fields:
  assumes "output_kwargs meta drv cnt photo = Inr kwargs"
  shows "kwargs ''count'' = Some (MInt cnt)"
    and "kwargs ''driver'' = Some (MStr drv)"
    and "kwargs ''photometric'' =
           (case photo of None \<Rightarrow> meta ''photometric''
            | Some ph \<Rightarrow> if ph \<noteq> [] then Some (MStr ph) else meta ''photometric'')"
    and "kwargs ''transform'' = meta ''affine''"
    and "kwargs ''affine'' = None"
    and "meta ''affine'' \<noteq> None"
    and "\<And>key. key \<notin> {''count'', ''driver'', ''photometric'', ''transform'', ''affine''} \<Longrightarrow>
           kwargs key = meta key"
  using assms
  by (auto simp: output_kwargs_def Let_def split: option.splits if_splits)

lemma copy_entry_single:
  assumes "open_read io (Some path) = Inr src" and "ds_read src (Single i) = Inr data"
    and "write_bands io (dst cs) data (Single (dst_idx cs)) = None"
  shows "copy_entry io path (Single i) cs =
           (cs\<lparr>dst := (dst cs)\<lparr>out_writes := out_writes (dst cs) @ [(data, Single (dst_idx cs))]\<rparr>,
               dst_idx := dst_idx cs + 1\<rparr>, None)"
  using assms by (simp add: copy_entry_def dst_write_def)

lemma copy_entry_many:
  assumes "open_read io (Some path) = Inr src" and "ds_read src (Many xs) = Inr data"
    and "write_bands io (dst cs) data (Many [dst_idx cs..dst_idx cs + int (length xs) - 1]) = None"
  shows "copy_entry io path (Many xs) cs =
           (cs\<lparr>dst := (dst cs)\<lparr>out_writes := out_writes (dst cs) @
                      [(data, Many [dst_idx cs..dst_idx cs + int (length xs) - 1])]\<rparr>,
               dst_idx := dst_idx cs + int (length xs)\<rparr>, None)"
  using assms by (simp add: copy_entry_def dst_write_def)

lemma copy_entry_effect:
  assumes "copy_entry io path index cs = (cs', r)"
  shows "written_bands (dst cs') = written_bands (dst cs) @ [dst_idx cs..dst_idx cs' - 1] \<and>
         dst_idx cs \<le> dst_idx cs' \<and>
         out_meta (dst cs') = out_meta (dst cs) \<and>
         (r = None \<longrightarrow>
            dst_idx cs' = dst_idx cs + contributed index \<and>
            map (\<lambda>w. contributed (snd w)) (out_writes (dst cs')) =
              map (\<lambda>w. contributed (snd w)) (out_writes (dst cs)) @ [contributed index])"
proof (cases "open_read io (Some path)")
  case (Inl e)
  with assms show ?thesis by (auto simp: copy_entry_def)
next
  case (Inr src)
  show ?thesis
  proof (cases index)
    case (Single i)
    with assms Inr show ?thesis
      by (auto simp: copy_entry_def dst_write_def written_bands_def
          split: sum.splits option.splits)
  next
    case (Many xs)
    with assms Inr show ?thesis
      by (auto simp: copy_entry_def dst_write_def written_bands_def
          split: sum.splits option.splits)
  qed
qed

lemma copy_loop_effect:
  "copy_loop io pairs cs = (cs', r) \<Longrightarrow>
     written_bands (dst cs') = written_bands (dst cs) @ [dst_idx cs..dst_idx cs' - 1] \<and>
     dst_idx cs \<le> dst_idx cs' \<and>
     out_meta (dst cs') = out_meta (dst cs) \<and>
     (r = None \<longrightarrow>
        dst_idx cs' = dst_idx cs + sum_list (map (\<lambda>p. contributed (snd p)) pairs) \<and>
        map (\<lambda>w. contributed (snd w)) (out_writes (dst cs')) =
          map (\<lambda>w. contributed (snd w)) (out_writes (dst cs)) @
          map (\<lambda>p. contributed (snd p)) pairs)"
proof (induction pairs arbitrary: cs)
  case Nil
  then show ?case by auto
next
  case (Cons p pairs)
  obtain path index where p: "p = (path, index)" by (cases p)
  obtain c1 r1 where e: "copy_entry io path index cs = (c1, r1)"
    by (cases "copy_entry io path index cs")
  note E = copy_entry_effect[OF e]
  show ?case
  proof (cases r1)
    case (Some err)
    with Cons.prems p e have "cs' = c1" "r = Some err" by auto
    with E show ?thesis by simp
  next
    case None
    with Cons.prems p e have l: "copy_loop io pairs c1 = (cs', r)" by simp
    note L = Cons.IH[OF l]
    have "[dst_idx cs..dst_idx c1 - 1] @ [dst_idx c1..dst_idx cs' - 1] = [dst_idx cs..dst_idx cs' - 1]"
      using E L by (intro upto_append) auto
    then have w: "written_bands (dst cs') = written_bands (dst cs) @ [dst_idx cs..dst_idx cs' - 1]"
      using E L by simp
    have "dst_idx cs \<le> dst_idx cs'" using E L by linarith
    moreover have "out_meta (dst cs') = out_meta (dst cs)" using E L by simp
    moreover have "r = None \<longrightarrow>
        dst_idx cs' = dst_idx cs + sum_list (map (\<lambda>p. contributed (snd p)) (p # pairs)) \<and>
        map (\<lambda>w. contributed (snd w)) (out_writes (dst cs')) =
          map (\<lambda>w. contributed (snd w)) (out_writes (dst cs)) @
          map (\<lambda>p. contributed (snd p)) (p # pairs)"
      using E L None p by simp
    ultimately show ?thesis using w by blast
  qed
qed

lemma stack_result:
  assumes "result (stack io args) = Some d"
  obtains st path0 rest first kwargs cs r where
    "resolve_all io (zip_longest (input args) (bidx args)) plan0 = Inr st"
    "input args = path0 # rest"
    "open_read io (Some path0) = Inr first"
    "output_kwargs (ds_meta first) (driver args) (output_count st) (photometric args) = Inr kwargs"
    "open_write io (output_path args) kwargs = None"
    "copy_loop io (zip (input args) (indexes st))
       \<lparr>dst_idx = 1, dst = \<lparr>out_meta = kwargs, out_writes = []\<rparr>\<rparr> = (cs, r)"
    "d = dst cs"
    "exit_code (stack io args) = (if r = None then 0 else 1)"
    "logged (stack io args) = r"
proof (cases "resolve_all io (zip_longest (input args) (bidx args)) plan0")
  case (Inl e)
  with assms show ?thesis by (simp add: stack_def failed_def)
next
  case st: (Inr st)
  show ?thesis
  proof (cases "input args")
    case Nil
    with assms st show ?thesis by (simp add: stack_def failed_def)
  next
    case inp: (Cons path0 rest)
    show ?thesis
    proof (cases "open_read io (Some path0)")
      case (Inl e)
      with assms st inp show ?thesis by (simp add: stack_def failed_def)
    next
      case first: (Inr first)
      show ?thesis
      proof (cases "output_kwargs (ds_meta first) (driver args) (output_count st)
                      (photometric args)")
        case (Inl e)
        with assms st inp first show ?thesis by (simp add: stack_def failed_def)
      next
        case kw: (Inr kwargs)
        show ?thesis
        proof (cases "open_write io (output_path args) kwargs")
          case (Some e)
          with assms st inp first kw show ?thesis by (simp add: stack_def failed_def)
        next
          case ow: None
          obtain cs r where c: "copy_loop io (zip (input args) (indexes st))
              \<lparr>dst_idx = 1, dst = \<lparr>out_meta = kwargs, out_writes = []\<rparr>\<rparr> = (cs, r)"
            by (cases "copy_loop io (zip (input args) (indexes st))
              \<lparr>dst_idx = 1, dst = \<lparr>out_meta = kwargs, out_writes = []\<rparr>\<rparr>")
          have s: "stack io args =
              (case r of Some e \<Rightarrow> failed e (Some (dst cs))
               | None \<Rightarrow> \<lparr>exit_code = 0, logged = None, result = Some (dst cs)\<rparr>)"
            using st inp first kw ow c by (simp add: stack_def)
          have "d = dst cs" using assms s by (cases r) (simp_all add: failed_def)
          moreover have "exit_code (stack io args) = (if r = None then 0 else 1)"
            using s by (cases r) (simp_all add: failed_def)
          moreover have "logged (stack io args) = r"
            using s by (cases r) (simp_all add: failed_def)
          ultimately show ?thesis using that st inp first kw ow c by blast
        qed
      qed
    qed
  qed
qed

subsection \<open>Running the command on the example dataset\<close>

lemma indexes_of_3: "indexes_of 3 = [1, 2, 3]"
  by code_simp

lemmas resolve_defs =
  resolve_entry_def range_bounds_def py_split_def opt_int_def int_defs py_slice_def
  slice_bound_def indexes_of_3 append_index_def plan0_def

lemma rio_create: "open_write rio path kwargs = None"
  by (simp add: rio_def)

lemma rio_open: "open_read rio (Some ''RGB.byte.tif'') = Inr rgb_byte"
  by (simp add: rio_def)

lemma rgb_kwargs: "output_kwargs (ds_meta rgb_byte) ''GTiff'' 3 None = Inr stacked_kwargs"
  by (auto simp: output_kwargs_def rgb_byte_def stacked_kwargs_def fun_eq_iff)

lemma resolve_two_halves:
  "resolve_all rio (zip_longest (input two_halves) (bidx two_halves)) plan0 =
     Inr \<lparr>output_count = 3, indexes = [Many [1, 2], Many [3]]\<rparr>"
  by (simp add: two_halves_def rio_def rgb_byte_def resolve_defs)

lemma copy_two_halves:
  "copy_loop rio [(''RGB.byte.tif'', Many [1, 2]), (''RGB.byte.tif'', Many [3])]
     \<lparr>dst_idx = 1, dst = \<lparr>out_meta = stacked_kwargs, out_writes = []\<rparr>\<rparr> =
   (\<lparr>dst_idx = 4, dst = \<lparr>out_meta = stacked_kwargs,
        out_writes = [([1, 2], Many [1, 2]), ([3], Many [3])]\<rparr>\<rparr>, None)"
  by (simp add: rio_def rgb_byte_def copy_entry_def dst_write_def upto_rec1)

lemma stack_two_halves:
  "stack rio two_halves =
     \<lparr>exit_code = 0, logged = None,
      result = Some \<lparr>out_meta = stacked_kwargs,
                     out_writes = [([1, 2], Many [1, 2]), ([3], Many [3])]\<rparr>\<rparr>"
proof -
  have "input two_halves = [''RGB.byte.tif'', ''RGB.byte.tif'']"
    "driver two_halves = ''GTiff''" "photometric two_halves = None"
    by (simp_all add: two_halves_def)
  then show ?thesis
    unfolding stack_def resolve_two_halves
    by (simp add: rio_open rgb_kwargs rio_create copy_two_halves del: copy_loop.simps)
qed

lemma resolve_no_such_band:
  "resolve_all rio (zip_longest (input no_such_band) (bidx no_such_band)) plan0 =
     Inr \<lparr>output_count = 3, indexes = [Many [2, 1], Single 4]\<rparr>"
  by (simp add: no_such_band_def rio_def rgb_byte_def resolve_defs)

lemma copy_no_such_band:
  "copy_loop rio [(''RGB.byte.tif'', Many [2, 1]), (''RGB.byte.tif'', Single 4)]
     \<lparr>dst_idx = 1, dst = \<lparr>out_meta = stacked_kwargs, out_writes = []\<rparr>\<rparr> =
   (\<lparr>dst_idx = 3, dst = \<lparr>out_meta = stacked_kwargs,
        out_writes = [([2, 1], Many [1, 2])]\<rparr>\<rparr>, Some IndexError)"
  by (simp add: rio_def rgb_byte_def copy_entry_def dst_write_def upto_rec1)

lemma stack_no_such_band:
  "stack rio no_such_band =
     \<lparr>exit_code = 1, logged = Some IndexError,
      result = Some \<lparr>out_meta = stacked_kwargs, out_writes = [([2, 1], Many [1, 2])]\<rparr>\<rparr>"
proof -
  have "input no_such_band = [''RGB.byte.tif'', ''RGB.byte.tif'']"
    "driver no_such_band = ''GTiff''" "photometric no_such_band = None"
    by (simp_all add: no_such_band_def)
  then show ?thesis
    unfolding stack_def resolve_no_such_band
    by (simp add: rio_open rgb_kwargs rio_create copy_no_such_band failed_def
        del: copy_loop.simps)
qed

lemma stack_no_expression:
  "stack rio no_expression = \<lparr>exit_code = 1, logged = Some ValueError, result = None\<rparr>"
  by (simp add: stack_def no_expression_def rio_def rgb_byte_def resolve_defs failed_def)

subsection \<open>The whole body of the command\<close>

lemma resolve_all_with_append:
  "resolve_all_with env io (xs @ ys) st =
     (case resolve_all_with env io xs st of
        Inl e \<Rightarrow> Inl e
      | Inr st1 \<Rightarrow> resolve_all_with env io ys st1)"
  by (induction xs arbitrary: st) (auto split: sum.splits option.splits)

lemma copy_loop_with_append:
  "copy_loop_with env io (xs @ ys) cs =
     (case copy_loop_with env io xs cs of
        (cs1, Some e) \<Rightarrow> (cs1, Some e)
      | (cs1, None) \<Rightarrow> copy_loop_with env io ys cs1)"
  by (induction xs arbitrary: cs) (auto split: prod.splits option.splits)

lemma leaving_Some: "leaving closed raised = Some e \<longleftrightarrow>
    closed = Some e \<or> closed = None \<and> raised = Some e"
  by (auto simp: leaving_def split: option.splits)

lemma leaving_None: "leaving closed raised = None \<longleftrightarrow> closed = None \<and> raised = None"
  by (auto simp: leaving_def split: option.splits)

lemma copy_bands_raises:
  "snd (copy_bands io src index cs) = Some e \<longleftrightarrow>
     ds_read src index = Inl e \<or>
     (\<exists>data. ds_read src index = Inr data \<and>
        write_bands io (dst cs) data
          (case index of
             Single i \<Rightarrow> Single (dst_idx cs)
           | Many xs \<Rightarrow> Many [dst_idx cs..dst_idx cs + int (length xs) - 1]) = Some e)"
  by (cases index)
    (auto simp: copy_bands_def dst_write_def split: sum.splits option.splits)

lemma copy_entry_with_raises:
  "snd (copy_entry_with env io path index cs) = Some e \<longleftrightarrow>
     open_read io (Some path) = Inl e \<or>
     (\<exists>src. open_read io (Some path) = Inr src \<and>
        (close_input env src = Some e \<or>
         close_input env src = None \<and>
           (ds_read src index = Inl e \<or>
            (\<exists>data. ds_read src index = Inr data \<and>
               write_bands io (dst cs) data
                 (case index of
                    Single i \<Rightarrow> Single (dst_idx cs)
                  | Many xs \<Rightarrow> Many [dst_idx cs..dst_idx cs + int (length xs) - 1]) =
               Some e))))"
proof (cases "open_read io (Some path)")
  case (Inl e')
  then show ?thesis by (auto simp: copy_entry_with_def)
next
  case (Inr src)
  have "snd (copy_entry_with env io path index cs) =
          leaving (close_input env src) (snd (copy_bands io src index cs))"
    using Inr by (simp add: copy_entry_with_def split: prod.splits)
  then show ?thesis
    using Inr copy_bands_raises[of io src index cs e] by (simp add: leaving_Some)
qed

lemma copy_loop_with_raises:
  "snd (copy_loop_with env io pairs cs) = Some e \<longleftrightarrow>
     (\<exists>pre path index post cs1.
        pairs = pre @ (path, index) # post \<and>
        copy_loop_with env io pre cs = (cs1, None) \<and>
        snd (copy_entry_with env io path index cs1) = Some e)"
proof
  assume "snd (copy_loop_with env io pairs cs) = Some e"
  then show "\<exists>pre path index post cs1.
        pairs = pre @ (path, index) # post \<and>
        copy_loop_with env io pre cs = (cs1, None) \<and>
        snd (copy_entry_with env io path index cs1) = Some e"
  proof (induction pairs arbitrary: cs)
    case Nil
    then show ?case by simp
  next
    case (Cons p pairs)
    obtain path index where p: "p = (path, index)" by (cases p)
    obtain c1 r1 where c: "copy_entry_with env io path index cs = (c1, r1)"
      by (cases "copy_entry_with env io path index cs")
    show ?case
    proof (cases r1)
      case (Some e')
      with Cons.prems p c have "e' = e" by simp
      with Some c have "snd (copy_entry_with env io path index cs) = Some e" by simp
      moreover have "copy_loop_with env io [] cs = (cs, None)" by simp
      moreover have "p # pairs = [] @ (path, index) # pairs" using p by simp
      ultimately show ?thesis by blast
    next
      case None
      with Cons.prems p c have "snd (copy_loop_with env io pairs c1) = Some e" by simp
      from Cons.IH[OF this] obtain pre path' index' post cs1 where
        d: "pairs = pre @ (path', index') # post"
           "copy_loop_with env io pre c1 = (cs1, None)"
           "snd (copy_entry_with env io path' index' cs1) = Some e" by blast
      have "p # pairs = (p # pre) @ (path', index') # post" using d by simp
      moreover have "copy_loop_with env io (p # pre) cs = (cs1, None)"
        using p c None d by simp
      ultimately show ?thesis using d(3) by blast
    qed
  qed
next
  assume "\<exists>pre path index post cs1.
        pairs = pre @ (path, index) # post \<and>
        copy_loop_with env io pre cs = (cs1, None) \<and>
        snd (copy_entry_with env io path index cs1) = Some e"
  then obtain pre path index post cs1 where
    d: "pairs = pre @ (path, index) # post"
       "copy_loop_with env io pre cs = (cs1, None)"
       "snd (copy_entry_with env io path index cs1) = Some e" by blast
  obtain c2 where "copy_entry_with env io path index cs1 = (c2, Some e)"
    using d(3) by (cases "copy_entry_with env io path index cs1") auto
  then show "snd (copy_loop_with env io pairs cs) = Some e"
    using d by (simp add: copy_loop_with_append)
qed


lemma parse_ints_with_raises:
  "parse_ints_with f ts = Inl e \<longleftrightarrow>
     (\<exists>pre t post. ts = pre @ t # post \<and> (\<forall>u\<in>set pre. \<exists>k. f u = Inr k) \<and> f t = Inl e)"
proof (induction ts)
  case Nil
  then show ?case by simp
next
  case (Cons a ts)
  show ?case
  proof (cases "f a")
    case (Inl e')
    show ?thesis
    proof
      assume "parse_ints_with f (a # ts) = Inl e"
      with Inl have "f a = Inl e" by simp
      moreover have "a # ts = [] @ a # ts" by simp
      ultimately show "\<exists>pre t post. a # ts = pre @ t # post \<and>
          (\<forall>u\<in>set pre. \<exists>k. f u = Inr k) \<and> f t = Inl e"
        by (metis empty_iff list.set(1))
    next
      assume "\<exists>pre t post. a # ts = pre @ t # post \<and>
          (\<forall>u\<in>set pre. \<exists>k. f u = Inr k) \<and> f t = Inl e"
      then obtain pre t post where
        d: "a # ts = pre @ t # post" "\<forall>u\<in>set pre. \<exists>k. f u = Inr k" "f t = Inl e" by blast
      have "pre = []"
      proof (cases pre)
        case Nil
        then show ?thesis .
      next
        case (Cons b pre')
        with d(1) have "b = a" by simp
        with Cons d(2) Inl show ?thesis by auto
      qed
      with d have "f a = Inl e" by simp
      then show "parse_ints_with f (a # ts) = Inl e" by simp
    qed
  next
    case (Inr k)
    have "parse_ints_with f (a # ts) = Inl e \<longleftrightarrow> parse_ints_with f ts = Inl e"
      using Inr by (simp split: sum.splits)
    also have "\<dots> \<longleftrightarrow> (\<exists>pre t post. ts = pre @ t # post \<and>
        (\<forall>u\<in>set pre. \<exists>k. f u = Inr k) \<and> f t = Inl e)"
      by (rule Cons.IH)
    also have "\<dots> \<longleftrightarrow> (\<exists>pre t post. a # ts = pre @ t # post \<and>
        (\<forall>u\<in>set pre. \<exists>k. f u = Inr k) \<and> f t = Inl e)"
    proof
      assume "\<exists>pre t post. ts = pre @ t # post \<and>
        (\<forall>u\<in>set pre. \<exists>k. f u = Inr k) \<and> f t = Inl e"
      then obtain pre t post where
        d: "ts = pre @ t # post" "\<forall>u\<in>set pre. \<exists>k. f u = Inr k" "f t = Inl e" by blast
      have "a # ts = (a # pre) @ t # post" using d(1) by simp
      moreover have "\<forall>u\<in>set (a # pre). \<exists>k. f u = Inr k" using d(2) Inr by simp
      ultimately show "\<exists>pre t post. a # ts = pre @ t # post \<and>
        (\<forall>u\<in>set pre. \<exists>k. f u = Inr k) \<and> f t = Inl e"
        using d(3) by blast
    next
      assume "\<exists>pre t post. a # ts = pre @ t # post \<and>
        (\<forall>u\<in>set pre. \<exists>k. f u = Inr k) \<and> f t = Inl e"
      then obtain pre t post where
        d: "a # ts = pre @ t # post" "\<forall>u\<in>set pre. \<exists>k. f u = Inr k" "f t = Inl e" by blast
      show "\<exists>pre t post. ts = pre @ t # post \<and>
        (\<forall>u\<in>set pre. \<exists>k. f u = Inr k) \<and> f t = Inl e"
      proof (cases pre)
        case Nil
        with d Inr show ?thesis by simp
      next
        case (Cons b pre')
        with d have "ts = pre' @ t # post" "\<forall>u\<in>set pre'. \<exists>k. f u = Inr k" by simp_all
        with d(3) show ?thesis by blast
      qed
    qed
    finally show ?thesis .
  qed
qed

lemma opt_int_with_raises:
  "opt_int_with f x = Inl e \<longleftrightarrow> x \<noteq> [] \<and> f x = Inl e"
  by (cases "f x") (auto simp: opt_int_with_def)

lemma opt_int_with_returns:
  "(\<exists>r. opt_int_with f x = Inr r) \<longleftrightarrow> x = [] \<or> (\<exists>k. f x = Inr k)"
  by (cases "f x") (auto simp: opt_int_with_def)

lemma range_bounds_with_raises:
  "range_bounds_with f it = Inl e \<longleftrightarrow>
     (case py_split ''..'' it of
        [a, b] \<Rightarrow>
          a \<noteq> [] \<and> f a = Inl e \<or>
          (a = [] \<or> (\<exists>k. f a = Inr k)) \<and> b \<noteq> [] \<and> f b = Inl e
      | _ \<Rightarrow> e = ValueError)"
proof (cases "py_split ''..'' it")
  case Nil
  then show ?thesis by (auto simp: range_bounds_with_def)
next
  case (Cons a r)
  show ?thesis
  proof (cases r)
    case Nil
    with Cons show ?thesis by (auto simp: range_bounds_with_def)
  next
    case r: (Cons b r')
    show ?thesis
    proof (cases r')
      case Nil
      have "range_bounds_with f it = Inl e \<longleftrightarrow>
          opt_int_with f a = Inl e \<or> (\<exists>s. opt_int_with f a = Inr s) \<and> opt_int_with f b = Inl e"
        using Cons r Nil by (auto simp: range_bounds_with_def split: sum.splits)
      then show ?thesis
        using Cons r Nil by (simp add: opt_int_with_raises opt_int_with_returns)
    next
      case (Cons c r'')
      with \<open>py_split ''..'' it = a # r\<close> r show ?thesis
        by (auto simp: range_bounds_with_def)
    qed
  qed
qed

lemma resolve_entry_with_raises:
  "resolve_entry_with f src_indexes item st = Inl e \<longleftrightarrow>
     (\<exists>it. item = Some it \<and>
        (py_contains ''..'' it \<and>
           (case py_split ''..'' it of
              [a, b] \<Rightarrow>
                a \<noteq> [] \<and> f a = Inl e \<or>
                (a = [] \<or> (\<exists>k. f a = Inr k)) \<and> b \<noteq> [] \<and> f b = Inl e
            | _ \<Rightarrow> e = ValueError) \<or>
         \<not> py_contains ''..'' it \<and>
           (\<exists>pre t post. py_split '','' it = pre @ t # post \<and>
              (\<forall>u\<in>set pre. \<exists>k. f u = Inr k) \<and> f t = Inl e)))"
proof (cases item)
  case None
  then show ?thesis by (simp add: resolve_entry_with_def)
next
  case (Some it)
  show ?thesis
  proof (cases "py_contains ''..'' it")
    case True
    have "resolve_entry_with f src_indexes item st = Inl e \<longleftrightarrow> range_bounds_with f it = Inl e"
      using Some True by (auto simp: resolve_entry_with_def split: sum.splits prod.splits)
    then show ?thesis
      using Some True by (simp add: range_bounds_with_raises)
  next
    case False
    have "resolve_entry_with f src_indexes item st = Inl e \<longleftrightarrow>
            parse_ints_with f (py_split '','' it) = Inl e"
      using Some False by (auto simp: resolve_entry_with_def split: sum.splits list.splits)
    then show ?thesis
      using Some False by (simp add: parse_ints_with_raises)
  qed
qed

lemma resolve_all_with_raises:
  "resolve_all_with env io pairs st = Inl e \<longleftrightarrow>
     (\<exists>pre path item post st1.
        pairs = pre @ (path, item) # post \<and>
        resolve_all_with env io pre st = Inr st1 \<and>
        (open_read io path = Inl e \<or>
         (\<exists>src. open_read io path = Inr src \<and>
            (close_input env src = Some e \<or>
             close_input env src = None \<and>
               resolve_entry_with (int_of env) (ds_indexes src) item st1 = Inl e))))"
proof
  assume "resolve_all_with env io pairs st = Inl e"
  then show "\<exists>pre path item post st1.
        pairs = pre @ (path, item) # post \<and>
        resolve_all_with env io pre st = Inr st1 \<and>
        (open_read io path = Inl e \<or>
         (\<exists>src. open_read io path = Inr src \<and>
            (close_input env src = Some e \<or>
             close_input env src = None \<and>
               resolve_entry_with (int_of env) (ds_indexes src) item st1 = Inl e)))"
  proof (induction pairs arbitrary: st)
    case Nil
    then show ?case by simp
  next
    case (Cons p pairs)
    obtain path item where p: "p = (path, item)" by (cases p)
    let ?site = "\<lambda>st1. open_read io path = Inl e \<or>
         (\<exists>src. open_read io path = Inr src \<and>
            (close_input env src = Some e \<or>
             close_input env src = None \<and>
               resolve_entry_with (int_of env) (ds_indexes src) item st1 = Inl e))"
    show ?case
    proof (cases "?site st")
      case True
      have "p # pairs = [] @ (path, item) # pairs" using p by simp
      moreover have "resolve_all_with env io [] st = Inr st" by simp
      ultimately show ?thesis using True by blast
    next
      case False
      with Cons.prems p obtain src st' where
        o: "open_read io path = Inr src" "close_input env src = None"
           "resolve_entry_with (int_of env) (ds_indexes src) item st = Inr st'"
           "resolve_all_with env io pairs st' = Inl e"
        by (auto split: sum.splits option.splits)
      from Cons.IH[OF o(4)] obtain pre path' item' post st1 where
        d: "pairs = pre @ (path', item') # post"
           "resolve_all_with env io pre st' = Inr st1"
           "open_read io path' = Inl e \<or>
            (\<exists>src. open_read io path' = Inr src \<and>
              (close_input env src = Some e \<or>
               close_input env src = None \<and>
                 resolve_entry_with (int_of env) (ds_indexes src) item' st1 = Inl e))"
        by blast
      have "p # pairs = (p # pre) @ (path', item') # post" using d(1) by simp
      moreover have "resolve_all_with env io (p # pre) st = Inr st1"
        using p o d(2) by simp
      ultimately show ?thesis using d(3) by blast
    qed
  qed
next
  assume "\<exists>pre path item post st1.
        pairs = pre @ (path, item) # post \<and>
        resolve_all_with env io pre st = Inr st1 \<and>
        (open_read io path = Inl e \<or>
         (\<exists>src. open_read io path = Inr src \<and>
            (close_input env src = Some e \<or>
             close_input env src = None \<and>
               resolve_entry_with (int_of env) (ds_indexes src) item st1 = Inl e)))"
  then obtain pre path item post st1 where
    d: "pairs = pre @ (path, item) # post"
       "resolve_all_with env io pre st = Inr st1"
       "open_read io path = Inl e \<or>
         (\<exists>src. open_read io path = Inr src \<and>
            (close_input env src = Some e \<or>
             close_input env src = None \<and>
               resolve_entry_with (int_of env) (ds_indexes src) item st1 = Inl e))"
    by blast
  from d(3) have "resolve_all_with env io ((path, item) # post) st1 = Inl e"
    by (auto split: sum.splits option.splits)
  then show "resolve_all_with env io pairs st = Inl e"
    using d(1,2) by (simp add: resolve_all_with_append)
qed


lemma output_kwargs_raises:
  "output_kwargs meta drv cnt photo = Inl e \<longleftrightarrow> meta ''affine'' = None \<and> e = KeyError"
  by (auto simp: output_kwargs_def Let_def split: option.splits)

lemma stack_body_raises:
  "fst (stack_body env io args) = Some e \<longleftrightarrow>
     resolve_all_with env io (zip_longest (input args) (bidx args)) plan0 = Inl e \<or>
     (\<exists>st. resolve_all_with env io (zip_longest (input args) (bidx args)) plan0 = Inr st \<and>
        (input args = [] \<and> e = IndexError \<or>
         (\<exists>path0 rest. input args = path0 # rest \<and>
            (open_read io (Some path0) = Inl e \<or>
             (\<exists>first. open_read io (Some path0) = Inr first \<and>
                (close_input env first = Some e \<or>
                 close_input env first = None \<and>
                   (ds_meta first ''affine'' = None \<and> e = KeyError \<or>
                    (\<exists>kwargs.
                       output_kwargs (ds_meta first) (driver args) (output_count st)
                         (photometric args) = Inr kwargs \<and>
                       (open_write io (output_path args) kwargs = Some e \<or>
                        open_write io (output_path args) kwargs = None \<and>
                          (\<exists>cs raised.
                             copy_loop_with env io (zip (input args) (indexes st))
                               \<lparr>dst_idx = 1,
                                dst = \<lparr>out_meta = kwargs, out_writes = []\<rparr>\<rparr> = (cs, raised) \<and>
                             (close_output env (dst cs) = Some e \<or>
                              close_output env (dst cs) = None \<and> raised = Some e)))))))))))"
proof (cases "resolve_all_with env io (zip_longest (input args) (bidx args)) plan0")
  case (Inl e')
  then show ?thesis by (auto simp: stack_body_def)
next
  case st: (Inr st)
  show ?thesis
  proof (cases "input args")
    case Nil
    with st show ?thesis by (auto simp: stack_body_def)
  next
    case inp: (Cons path0 rest)
    show ?thesis
    proof (cases "open_read io (Some path0)")
      case (Inl e')
      with st inp show ?thesis by (auto simp: stack_body_def)
    next
      case first: (Inr first)
      show ?thesis
      proof (cases "close_input env first")
        case (Some e')
        with st inp first show ?thesis by (auto simp: stack_body_def)
      next
        case cl: None
        show ?thesis
        proof (cases "output_kwargs (ds_meta first) (driver args) (output_count st)
                        (photometric args)")
          case (Inl e')
          then have "ds_meta first ''affine'' = None" "e' = KeyError"
            by (simp_all add: output_kwargs_raises)
          with Inl st inp first cl show ?thesis by (auto simp: stack_body_def)
        next
          case kw: (Inr kwargs)
          then have aff: "ds_meta first ''affine'' \<noteq> None"
            by (rule output_kwargs_fields(6))
          show ?thesis
          proof (cases "open_write io (output_path args) kwargs")
            case (Some e')
            with st inp first cl kw aff show ?thesis by (auto simp: stack_body_def)
          next
            case ow: None
            obtain cs raised where c:
              "copy_loop_with env io (zip (input args) (indexes st))
                 \<lparr>dst_idx = 1, dst = \<lparr>out_meta = kwargs, out_writes = []\<rparr>\<rparr> = (cs, raised)"
              by (cases "copy_loop_with env io (zip (input args) (indexes st))
                 \<lparr>dst_idx = 1, dst = \<lparr>out_meta = kwargs, out_writes = []\<rparr>\<rparr>")
            have "fst (stack_body env io args) = leaving (close_output env (dst cs)) raised"
              using st inp first cl kw ow c by (simp add: stack_body_def)
            then show ?thesis
              using st inp first cl kw aff ow c by (auto simp: leaving_Some)
          qed
        qed
      qed
    qed
  qed
qed

lemma try_block_raises:
  "fst (try_block env io args v) = Some e \<longleftrightarrow>
     enter_drivers env (2 < v) = Some e \<or>
     enter_drivers env (2 < v) = None \<and>
       (exit_drivers env = Some e \<or>
        exit_drivers env = None \<and> fst (stack_body env io args) = Some e)"
  by (cases "enter_drivers env (2 < v)")
    (auto simp: try_block_def leaving_Some split: prod.splits)

lemma stack_command_prelude:
  "(import_numpy env = Some e \<longrightarrow> stack_command env io args = Inl e) \<and>
   (import_numpy env = None \<and> verbosity_of (ctx_obj env) = Inl e \<longrightarrow>
      stack_command env io args = Inl e) \<and>
   (import_numpy env = None \<and> verbosity_of (ctx_obj env) = Inr v \<and> get_logger env = Some e \<longrightarrow>
      stack_command env io args = Inl e)"
  by (simp add: stack_command_def)

lemma stack_command_handler:
  assumes "import_numpy env = None" "verbosity_of (ctx_obj env) = Inr v" "get_logger env = None"
  shows "fst (try_block env io args v) = None \<longrightarrow>
           stack_command env io args =
             Inr \<lparr>exit_code = 0, logged = None, result = snd (try_block env io args v)\<rparr>"
    and "fst (try_block env io args v) = Some e \<and> log_exception env e = None \<longrightarrow>
           stack_command env io args =
             Inr \<lparr>exit_code = 1, logged = Some e, result = snd (try_block env io args v)\<rparr>"
    and "fst (try_block env io args v) = Some e \<and> log_exception env e = Some e' \<longrightarrow>
           stack_command env io args = Inl e'"
  using assms by (auto simp: stack_command_def split: prod.splits option.splits)

lemma stack_command_exits:
  assumes "stack_command env io args = Inr out"
  shows "exit_code out = 0 \<and> logged out = None \<or>
         exit_code out = 1 \<and> (\<exists>e. logged out = Some e)"
  using assms
  by (auto simp: stack_command_def split: prod.splits option.splits sum.splits)


text \<open>
  The try statement \<open>stack\<close> is the command in the environment \<open>plain\<close>, where
  nothing outside \<^verbatim>\<open>bands.py\<close> raises and \<^verbatim>\<open>int\<close> is \<open>py_int\<close>.
\<close>

lemma opt_int_with_py_int: "opt_int_with py_int x = opt_int x"
  by (simp add: opt_int_with_def opt_int_def)

lemma range_bounds_with_py_int: "range_bounds_with py_int it = range_bounds it"
  by (simp add: range_bounds_with_def range_bounds_def opt_int_with_py_int
      split: list.splits sum.splits)

lemma parse_ints_with_py_int: "parse_ints_with py_int ts = parse_ints ts"
  by (induction ts) (auto split: sum.splits)

lemma resolve_entry_with_py_int:
  "resolve_entry_with py_int src_indexes item st = resolve_entry src_indexes item st"
  by (simp add: resolve_entry_with_def resolve_entry_def range_bounds_with_py_int
      parse_ints_with_py_int split: option.splits)

lemma resolve_all_with_plain:
  assumes "int_of env = py_int" and "\<And>src. close_input env src = None"
  shows "resolve_all_with env io pairs st = resolve_all io pairs st"
  by (induction pairs arbitrary: st)
    (auto simp: assms resolve_entry_with_py_int split: sum.splits)

lemma copy_entry_bands:
  "copy_entry io path index cs =
     (case open_read io (Some path) of
        Inl e \<Rightarrow> (cs, Some e)
      | Inr src \<Rightarrow> copy_bands io src index cs)"
  by (simp add: copy_entry_def copy_bands_def split: sum.splits)

lemma copy_entry_with_plain:
  assumes "\<And>src. close_input env src = None"
  shows "copy_entry_with env io path index cs = copy_entry io path index cs"
  by (simp add: copy_entry_with_def copy_entry_bands assms leaving_def
      split: sum.splits prod.splits)

lemma copy_loop_with_plain:
  assumes "\<And>src. close_input env src = None"
  shows "copy_loop_with env io entries cs = copy_loop io entries cs"
  by (induction entries arbitrary: cs) (auto simp: copy_entry_with_plain[OF assms])

lemma plain_fields:
  "import_numpy plain = None" "ctx_obj plain = None" "get_logger plain = None"
  "log_exception plain e = None" "int_of plain = py_int" "enter_drivers plain debug = None"
  "exit_drivers plain = None" "close_input plain src = None" "close_output plain d = None"
  by (simp_all add: plain_def)

lemma stack_body_plain:
  "stack_body plain io args = (logged (stack io args), result (stack io args))"
proof -
  have r: "resolve_all_with plain io pairs st = resolve_all io pairs st" for pairs st
    by (rule resolve_all_with_plain) (simp_all add: plain_fields)
  have c: "copy_loop_with plain io entries cs = copy_loop io entries cs" for entries cs
    by (rule copy_loop_with_plain) (simp add: plain_fields)
  show ?thesis
    unfolding stack_body_def stack_def r c
    by (simp add: plain_fields leaving_def failed_def
        split: sum.splits list.splits option.splits prod.splits)
qed

lemma try_block_plain:
  "try_block plain io args v = (logged (stack io args), result (stack io args))"
  by (simp add: try_block_def plain_fields stack_body_plain leaving_def)

lemma stack_exits:
  "exit_code (stack io args) = (if logged (stack io args) = None then 0 else 1)"
  by (simp add: stack_def failed_def
      split: sum.splits list.splits option.splits prod.splits)

lemma stack_command_plain: "stack_command plain io args = Inr (stack io args)"
proof -
  have s: "stack io args =
      \<lparr>exit_code = exit_code (stack io args), logged = logged (stack io args),
       result = result (stack io args)\<rparr>"
    by simp
  show ?thesis
  proof (cases "logged (stack io args)")
    case None
    then have "exit_code (stack io args) = 0" by (simp add: stack_exits)
    with None s have "stack io args =
        \<lparr>exit_code = 0, logged = None, result = result (stack io args)\<rparr>"
      by simp
    with None show ?thesis
      by (simp add: stack_command_def plain_fields verbosity_of_def try_block_plain)
  next
    case (Some e)
    then have "exit_code (stack io args) = 1" by (simp add: stack_exits)
    with Some s have "stack io args =
        \<lparr>exit_code = 1, logged = Some e, result = result (stack io args)\<rparr>"
      by simp
    with Some show ?thesis
      by (simp add: stack_command_def plain_fields verbosity_of_def try_block_plain)
  qed
qed

lemma rio_opens: "open_read read_only path = open_read rio path"
  "open_write read_only out kwargs = None"
  "write_bands read_only d data target = Some IOFailure"
  by (simp_all add: read_only_def rio_def)

lemma resolve_all_read_only:
  "resolve_all read_only pairs st = resolve_all rio pairs st"
  by (induction pairs arbitrary: st) (auto simp: rio_opens split: sum.splits)

lemma stack_read_only:
  "stack read_only two_halves =
     \<lparr>exit_code = 1, logged = Some IOFailure,
      result = Some \<lparr>out_meta = stacked_kwargs, out_writes = []\<rparr>\<rparr>"
proof -
  have a: "input two_halves = [''RGB.byte.tif'', ''RGB.byte.tif'']"
    "driver two_halves = ''GTiff''" "photometric two_halves = None"
    by (simp_all add: two_halves_def)
  have c: "copy_loop read_only [(''RGB.byte.tif'', Many [1, 2]), (''RGB.byte.tif'', Many [3])]
       \<lparr>dst_idx = 1, dst = \<lparr>out_meta = stacked_kwargs, out_writes = []\<rparr>\<rparr> =
     (\<lparr>dst_idx = 1, dst = \<lparr>out_meta = stacked_kwargs, out_writes = []\<rparr>\<rparr>, Some IOFailure)"
    by (simp add: rio_opens rio_open rgb_byte_def copy_entry_def dst_write_def)
  show ?thesis
    unfolding stack_def resolve_all_read_only resolve_two_halves
    by (simp add: a rio_opens rio_open rgb_kwargs c failed_def del: copy_loop.simps)
qed

lemma close_fails_fields:
  "import_numpy close_fails = None" "ctx_obj close_fails = None" "get_logger close_fails = None"
  "log_exception close_fails e = None" "int_of close_fails = py_int"
  "enter_drivers close_fails debug = None" "exit_drivers close_fails = None"
  "close_input close_fails src = None" "close_output close_fails d = Some IOFailure"
  by (simp_all add: close_fails_def plain_def)

lemma try_block_close_fails:
  "try_block close_fails rio two_halves 2 =
     (Some IOFailure,
      Some \<lparr>out_meta = stacked_kwargs,
            out_writes = [([1, 2], Many [1, 2]), ([3], Many [3])]\<rparr>)"
proof -
  have r: "resolve_all_with close_fails rio pairs st = resolve_all rio pairs st" for pairs st
    by (rule resolve_all_with_plain) (simp_all add: close_fails_fields)
  have c: "copy_loop_with close_fails rio entries cs = copy_loop rio entries cs" for entries cs
    by (rule copy_loop_with_plain) (simp add: close_fails_fields)
  have a: "input two_halves = [''RGB.byte.tif'', ''RGB.byte.tif'']"
    "driver two_halves = ''GTiff''" "photometric two_halves = None"
    by (simp_all add: two_halves_def)
  have "stack_body close_fails rio two_halves =
     (Some IOFailure,
      Some \<lparr>out_meta = stacked_kwargs,
            out_writes = [([1, 2], Many [1, 2]), ([3], Many [3])]\<rparr>)"
    unfolding stack_body_def r c resolve_two_halves
    by (simp add: a rio_open rio_create rgb_kwargs copy_two_halves close_fails_fields
        leaving_def del: copy_loop.simps)
  then show ?thesis
    by (simp add: try_block_def close_fails_fields leaving_def)
qed

section \<open>The claims\<close>

text \<open>
  C1 (as stated): a range expression whose start is greater than its stop raises an error
  and never resolves to an empty selection. The code has no such check: for the expression
  \<^verbatim>\<open>5..2\<close> on an input with six bands the slice is empty, the empty list is appended
  to the plan and nothing is added to the band count.
\<close>

theorem range_reversed_counterexample:
  "resolve_entry (indexes_of 6) (Some ''5..2'') plan0 =
     Inr \<lparr>output_count = 0, indexes = [Many []]\<rparr>"
  by (simp add: resolve_entry_def range_bounds_def py_split_def opt_int_def int_defs
      py_slice_def slice_bound_def indexes_of_def append_index_def plan0_def)

text \<open>
  C1 (amended): for every range expression whose start is greater than its stop, the stop
  not negative, the resolution raises no error: whatever the input's band list, the
  resolved selection is the empty list and it contributes zero bands to the output count.
\<close>

theorem range_reversed_resolves_empty:
  assumes "py_int a = Inr m" and "py_int b = Inr k" and "0 \<le> k" and "k < m"
  shows "resolve_entry src (Some (a @ ''..'' @ b)) st =
           Inr (st\<lparr>indexes := indexes st @ [Many []], output_count := output_count st + 0\<rparr>)"
  using resolve_entry_range[OF assms(1,2), of src st] py_slice_empty[OF assms(3,4), of src]
  by (simp add: append_index_def)

theorem range_reversed_resolves_empty_witness:
  "py_int ''5'' = Inr 5 \<and> py_int ''2'' = Inr 2 \<and> (0::int) \<le> 2 \<and> (2::int) < 5 \<and>
   resolve_entry (indexes_of 6) (Some ''5..2'') \<lparr>output_count = 0, indexes = []\<rparr> =
     Inr \<lparr>output_count = 0, indexes = [Many []]\<rparr>"
proof -
  have a: "py_int ''5'' = Inr 5" by (simp add: int_defs)
  have b: "py_int ''2'' = Inr 2" by (simp add: int_defs)
  show ?thesis
    using a b range_reversed_resolves_empty[OF a b, of "indexes_of 6"
        "\<lparr>output_count = 0, indexes = []\<rparr>"]
    by simp
qed

text \<open>
  C2: whenever the command gets as far as creating the output dataset, the first loop has
  resolved every selection, the band count the dataset is declared with is the sum of the
  counts contributed by the resolved selections, and the destination bands written by the
  copy loop, in the order of the writes, are \<open>1, 2, \<dots>, k\<close> for some \<open>k\<close>: contiguous
  from 1, with no gap and no overlap, also when the copy is interrupted. When the command
  succeeds, the writes follow the input list entry by entry, each of the size of its
  entry; and when the library refuses an absent path (so that there are no more
  expressions than inputs), the bands written are exactly \<open>1\<close> to the declared count.
\<close>

theorem layout_contiguous:
  assumes "result (stack io args) = Some d"
  shows "\<exists>st. resolve_all io (zip_longest (input args) (bidx args)) plan0 = Inr st \<and>
           output_count st = sum_list (map contributed (indexes st)) \<and>
           out_meta d ''count'' = Some (MInt (sum_list (map contributed (indexes st)))) \<and>
           (\<exists>k. written_bands d = [1..k]) \<and>
           (exit_code (stack io args) = 0 \<longrightarrow>
              map (\<lambda>w. contributed (snd w)) (out_writes d) =
                map contributed (take (length (input args)) (indexes st)) \<and>
              written_bands d =
                [1..sum_list (map contributed (take (length (input args)) (indexes st)))]) \<and>
           (exit_code (stack io args) = 0 \<and> (\<forall>src. open_read io None \<noteq> Inr src) \<longrightarrow>
              written_bands d = [1..output_count st])"
proof -
  from assms obtain st path0 rest first kwargs cs r where
    st: "resolve_all io (zip_longest (input args) (bidx args)) plan0 = Inr st" and
    inp: "input args = path0 # rest" and
    first: "open_read io (Some path0) = Inr first" and
    kw: "output_kwargs (ds_meta first) (driver args) (output_count st) (photometric args) =
           Inr kwargs" and
    ow: "open_write io (output_path args) kwargs = None" and
    cp: "copy_loop io (zip (input args) (indexes st))
           \<lparr>dst_idx = 1, dst = \<lparr>out_meta = kwargs, out_writes = []\<rparr>\<rparr> = (cs, r)" and
    d: "d = dst cs" and
    ex: "exit_code (stack io args) = (if r = None then 0 else 1)" and
    lg: "logged (stack io args) = r"
    by (rule stack_result)
  from resolve_all_count[OF st] have
    len: "length (indexes st) = length (zip_longest (input args) (bidx args))" and
    cnt: "output_count st = sum_list (map contributed (indexes st))"
    by (auto simp: plan0_def)
  note C = copy_loop_effect[OF cp]
  have m: "map (\<lambda>p. contributed (snd p)) (zip (input args) (indexes st)) =
             map contributed (take (length (input args)) (indexes st))"
  proof -
    have "map (\<lambda>p. contributed (snd p)) (zip (input args) (indexes st)) =
            map contributed (map snd (zip (input args) (indexes st)))"
      by (simp add: comp_def)
    then show ?thesis by (simp only: map_snd_zip_take)
  qed
  have meta: "out_meta d ''count'' = Some (MInt (sum_list (map contributed (indexes st))))"
    using C d output_kwargs_fields(1)[OF kw] cnt by simp
  have w: "written_bands d = [1..dst_idx cs - 1]"
    using C d by (simp add: written_bands_def)
  have ok: "exit_code (stack io args) = 0 \<longrightarrow>
              map (\<lambda>w. contributed (snd w)) (out_writes d) =
                map contributed (take (length (input args)) (indexes st)) \<and>
              written_bands d =
                [1..sum_list (map contributed (take (length (input args)) (indexes st)))]"
  proof
    assume "exit_code (stack io args) = 0"
    with ex have "r = None" by (simp split: if_splits)
    with C d m w show "map (\<lambda>w. contributed (snd w)) (out_writes d) =
                map contributed (take (length (input args)) (indexes st)) \<and>
              written_bands d =
                [1..sum_list (map contributed (take (length (input args)) (indexes st)))]"
      by simp
  qed
  have all: "exit_code (stack io args) = 0 \<and> (\<forall>src. open_read io None \<noteq> Inr src) \<longrightarrow>
              written_bands d = [1..output_count st]"
  proof
    assume a: "exit_code (stack io args) = 0 \<and> (\<forall>src. open_read io None \<noteq> Inr src)"
    have "\<not> length (input args) < length (bidx args)"
    proof
      assume "length (input args) < length (bidx args)"
      then obtain y where "(None, Some y) \<in> set (zip_longest (input args) (bidx args))"
        using zip_longest_None by blast
      from resolve_all_paths[OF st this] a show False by blast
    qed
    then have "length (indexes st) = length (input args)"
      using len by (simp add: length_zip_longest)
    with ok a cnt show "written_bands d = [1..output_count st]" by simp
  qed
  from st cnt meta w ok all show ?thesis by blast
qed

theorem layout_contiguous_witness:
  "result (stack rio two_halves) =
     Some \<lparr>out_meta = stacked_kwargs,
           out_writes = [([1, 2], Many [1, 2]), ([3], Many [3])]\<rparr> \<and>
   stacked_kwargs ''count'' = Some (MInt 3) \<and>
   written_bands \<lparr>out_meta = stacked_kwargs,
                  out_writes = [([1, 2], Many [1, 2]), ([3], Many [3])]\<rparr> = [1, 2, 3] \<and>
   exit_code (stack rio two_halves) = 0"
proof -
  have r: "result (stack rio two_halves) =
     Some \<lparr>out_meta = stacked_kwargs,
           out_writes = [([1, 2], Many [1, 2]), ([3], Many [3])]\<rparr>"
    by (simp add: stack_two_halves)
  show ?thesis
    using r layout_contiguous[OF r]
    by (simp add: stack_two_halves stacked_kwargs_def written_bands_def)
qed

text \<open>
  C3: for an input with \<open>N\<close> bands and a range expression whose tokens are the integers
  \<open>M\<close> and \<open>O\<close> with \<open>1 \<le> M \<le> O \<le> N\<close>, the resolved selection is the list
  \<open>M, M+1, \<dots>, O\<close>, of length \<open>O - M + 1\<close>, which is also what it contributes to the
  count. An expression with an empty start resolves like the same expression with start
  \<^verbatim>\<open>1\<close>, and an expression with an empty stop resolves like the same expression with
  the number of the last band as stop.
\<close>

theorem range_resolves_inclusive:
  "(py_int a = Inr (int M) \<and> py_int b = Inr (int O') \<and> 1 \<le> M \<and> M \<le> O' \<and> O' \<le> N \<longrightarrow>
      resolve_entry (indexes_of N) (Some (a @ ''..'' @ b)) st =
        Inr (st\<lparr>indexes := indexes st @ [Many [int M..int O']],
                output_count := output_count st + (int O' - int M + 1)\<rparr>) \<and>
      length [int M..int O'] = O' - M + 1) \<and>
   resolve_entry src (Some (''..'' @ b)) st = resolve_entry src (Some (''1..'' @ b)) st \<and>
   (py_int a = Inr m \<and> py_int l = Inr (int N) \<longrightarrow>
      resolve_entry (indexes_of N) (Some (a @ ''..'')) st =
        resolve_entry (indexes_of N) (Some (a @ ''..'' @ l)) st)"
proof (intro conjI impI)
  assume h: "py_int a = Inr (int M) \<and> py_int b = Inr (int O') \<and> 1 \<le> M \<and> M \<le> O' \<and> O' \<le> N"
  then have s: "py_slice (indexes_of N) (int M - 1) (Some (int O')) = [int M..int O']"
    by (intro py_slice_indexes_of) auto
  from h have "resolve_entry (indexes_of N) (Some (a @ ''..'' @ b)) st =
      Inr (append_index (Many (py_slice (indexes_of N) (int M - 1) (Some (int O'))))
             (int (length (py_slice (indexes_of N) (int M - 1) (Some (int O'))))) st)"
    by (intro resolve_entry_range) auto
  with h show "resolve_entry (indexes_of N) (Some (a @ ''..'' @ b)) st =
        Inr (st\<lparr>indexes := indexes st @ [Many [int M..int O']],
                output_count := output_count st + (int O' - int M + 1)\<rparr>)"
    by (simp add: s append_index_def)
  from h show "length [int M..int O'] = O' - M + 1" by auto
next
  have c1: "py_contains ''..'' (''..'' @ b)" and c2: "py_contains ''..'' (''1..'' @ b)"
    by simp_all
  show "resolve_entry src (Some (''..'' @ b)) st = resolve_entry src (Some (''1..'' @ b)) st"
    using range_bounds_open_start[of b] c1 c2
    by (simp add: resolve_entry_def del: py_contains.simps append.simps)
next
  assume h: "py_int a = Inr m \<and> py_int l = Inr (int N)"
  have c: "py_contains ''..'' (a @ ''..'' @ [])" by (rule py_contains_append)
  have n: "int (length (indexes_of N)) = int N" by (simp add: indexes_of_def)
  have "resolve_entry (indexes_of N) (Some (a @ ''..'')) st =
      Inr (append_index (Many (py_slice (indexes_of N) (m - 1) None))
             (int (length (py_slice (indexes_of N) (m - 1) None))) st)"
    using h c range_bounds_open_end[of a m] by (simp add: resolve_entry_def)
  moreover have "resolve_entry (indexes_of N) (Some (a @ ''..'' @ l)) st =
      Inr (append_index (Many (py_slice (indexes_of N) (m - 1) (Some (int N))))
             (int (length (py_slice (indexes_of N) (m - 1) (Some (int N))))) st)"
    using h by (intro resolve_entry_range) auto
  moreover have "py_slice (indexes_of N) (m - 1) (Some (int N)) = py_slice (indexes_of N) (m - 1) None"
    using py_slice_to_end[of "indexes_of N" "m - 1"] by (simp only: n)
  ultimately show "resolve_entry (indexes_of N) (Some (a @ ''..'')) st =
        resolve_entry (indexes_of N) (Some (a @ ''..'' @ l)) st"
    by simp
qed

theorem range_resolves_inclusive_witness:
  "py_int ''2'' = Inr (int 2) \<and> py_int ''3'' = Inr (int 3) \<and>
   resolve_entry (indexes_of 3) (Some ''2..3'') \<lparr>output_count = 0, indexes = []\<rparr> =
     Inr \<lparr>output_count = 2, indexes = [Many [2, 3]]\<rparr> \<and>
   resolve_entry (indexes_of 3) (Some ''..3'') \<lparr>output_count = 0, indexes = []\<rparr> =
     resolve_entry (indexes_of 3) (Some ''1..3'') \<lparr>output_count = 0, indexes = []\<rparr> \<and>
   resolve_entry (indexes_of 3) (Some ''2..'') \<lparr>output_count = 0, indexes = []\<rparr> =
     resolve_entry (indexes_of 3) (Some ''2..3'') \<lparr>output_count = 0, indexes = []\<rparr>"
proof -
  have a: "py_int ''2'' = Inr (int 2)" by (simp add: int_defs)
  have b: "py_int ''3'' = Inr (int 3)" by (simp add: int_defs)
  have u: "[2..3::int] = [2, 3]" by (simp add: upto_rec1)
  show ?thesis
    using a b u range_resolves_inclusive[of "''2''" 2 "''3''" 3 3
        "\<lparr>output_count = 0, indexes = []\<rparr>" "indexes_of 3" 2 "''3''"]
    by simp
qed

text \<open>
  C4: for an input with \<open>N\<close> bands and no selection expression, the resolved selection
  is the full ordered band list \<open>1, \<dots>, N\<close> and it adds exactly \<open>N\<close> to the output
  band count. (The equation holds for \<open>N = 0\<close> as well.)
\<close>

theorem absent_selects_all:
  "resolve_entry (indexes_of N) None st =
     Inr (st\<lparr>indexes := indexes st @ [Many [1..int N]],
             output_count := output_count st + int N\<rparr>)"
  by (simp add: resolve_entry_def append_index_def indexes_of_upto)

theorem absent_selects_all_witness:
  "resolve_entry (indexes_of 3) None \<lparr>output_count = 0, indexes = []\<rparr> =
     Inr \<lparr>output_count = 3, indexes = [Many [1, 2, 3]]\<rparr>"
proof -
  have u: "[1..3::int] = [1, 2, 3]" by (simp add: upto_rec1)
  show ?thesis
    using absent_selects_all[of 3 "\<lparr>output_count = 0, indexes = []\<rparr>"] u by simp
qed

text \<open>
  C5: for every list expression, that is, two or more integer tokens joined by commas,
  the resolved selection is the list of the tokens' values in the order of the tokens,
  duplicates included: nothing is sorted and nothing is removed.
\<close>

theorem list_preserves_order:
  assumes "list_all2 (\<lambda>t k. py_int t = Inr k) ts ks" and "2 \<le> length ts"
  shows "resolve_entry src (Some (comma_join ts)) st =
           Inr (st\<lparr>indexes := indexes st @ [Many ks],
                   output_count := output_count st + int (length ks)\<rparr>)"
proof -
  have "length ks = length ts" using assms(1) by (simp add: list_all2_lengthD)
  with assms(2) obtain p q r where "ks = p # q # r"
    by (cases ks; cases "tl ks") auto
  moreover have "ts \<noteq> []" using assms(2) by auto
  ultimately show ?thesis
    using resolve_entry_list[OF assms(1), of src st] by (simp add: append_index_def)
qed

theorem list_preserves_order_witness:
  "list_all2 (\<lambda>t k. py_int t = Inr k) [''2'', ''1'', ''2''] [2, 1, 2] \<and>
   (2::nat) \<le> length [''2'', ''1'', ''2''] \<and>
   resolve_entry (indexes_of 3) (Some ''2,1,2'') \<lparr>output_count = 0, indexes = []\<rparr> =
     Inr \<lparr>output_count = 3, indexes = [Many [2, 1, 2]]\<rparr> \<and>
   Many [2, 1, 2] \<noteq> Many [1, 2]"
proof -
  have t: "list_all2 (\<lambda>t k. py_int t = Inr k) [''2'', ''1'', ''2''] [2, 1, 2]"
    by (simp add: int_defs)
  have l: "(2::nat) \<le> length [''2'', ''1'', ''2'']" by simp
  show ?thesis
    using t l list_preserves_order[OF t l, of "indexes_of 3" "\<lparr>output_count = 0, indexes = []\<rparr>"]
    by simp
qed

text \<open>
  C6: an expression that is a single integer token resolves to a scalar index (the
  constructor \<open>Single\<close>, not a one-element \<open>Many\<close>) and adds one to the count. In the
  copy loop a scalar entry is read with a scalar band argument and written to the single
  destination band at the cursor, which advances by one; a list entry is read with the
  list as band argument and written to the destination bands from the cursor to the
  cursor plus its length minus one, and the cursor advances by its length.
\<close>

theorem scalar_and_list_copy:
  "(py_int t = Inr k \<longrightarrow>
      resolve_entry src_indexes (Some t) st =
        Inr (st\<lparr>indexes := indexes st @ [Single k], output_count := output_count st + 1\<rparr>)) \<and>
   Single k \<noteq> Many [k] \<and>
   (open_read io (Some path) = Inr src \<and> ds_read src (Single i) = Inr band \<and>
    write_bands io (dst cs) band (Single (dst_idx cs)) = None \<longrightarrow>
      copy_entry io path (Single i) cs =
        (cs\<lparr>dst := (dst cs)\<lparr>out_writes := out_writes (dst cs) @
                   [(band, Single (dst_idx cs))]\<rparr>,
            dst_idx := dst_idx cs + 1\<rparr>, None)) \<and>
   (open_read io (Some path) = Inr src \<and> ds_read src (Many xs) = Inr batch \<and>
    write_bands io (dst cs) batch (Many [dst_idx cs..dst_idx cs + int (length xs) - 1]) = None \<longrightarrow>
      copy_entry io path (Many xs) cs =
        (cs\<lparr>dst := (dst cs)\<lparr>out_writes := out_writes (dst cs) @
                   [(batch, Many [dst_idx cs..dst_idx cs + int (length xs) - 1])]\<rparr>,
            dst_idx := dst_idx cs + int (length xs)\<rparr>, None))"
  by (auto simp: resolve_entry_token append_index_def copy_entry_single copy_entry_many)

text \<open>
  The single token \<^verbatim>\<open>3\<close> and the list \<^verbatim>\<open>2,1,2\<close> copied with the cursor at 4.
\<close>

theorem scalar_and_list_copy_witness:
  "py_int ''3'' = Inr 3 \<and>
   resolve_entry (indexes_of 3) (Some ''3'') \<lparr>output_count = 0, indexes = []\<rparr> =
     Inr \<lparr>output_count = 1, indexes = [Single 3]\<rparr> \<and>
   Single 3 \<noteq> Many [3] \<and>
   copy_entry rio ''RGB.byte.tif'' (Single 3)
       \<lparr>dst_idx = 4, dst = \<lparr>out_meta = stacked_kwargs, out_writes = []\<rparr>\<rparr> =
     (\<lparr>dst_idx = 5, dst = \<lparr>out_meta = stacked_kwargs, out_writes = [([3], Single 4)]\<rparr>\<rparr>,
      None) \<and>
   copy_entry rio ''RGB.byte.tif'' (Many [2, 1, 2])
       \<lparr>dst_idx = 4, dst = \<lparr>out_meta = stacked_kwargs, out_writes = []\<rparr>\<rparr> =
     (\<lparr>dst_idx = 7, dst = \<lparr>out_meta = stacked_kwargs,
         out_writes = [([2, 1, 2], Many [4, 5, 6])]\<rparr>\<rparr>, None)"
proof -
  have t: "py_int ''3'' = Inr 3" by (simp add: int_defs)
  have r: "ds_read rgb_byte (Single 3) = Inr [3]" "ds_read rgb_byte (Many [2, 1, 2]) = Inr [2, 1, 2]"
    by (simp_all add: rgb_byte_def)
  have w: "write_bands rio d data target = None" for d data target
    by (simp add: rio_def)
  have u: "[4..6::int] = [4, 5, 6]" by (simp add: upto_rec1)
  show ?thesis
    using t r u
      scalar_and_list_copy[of "''3''" 3 "indexes_of 3" "\<lparr>output_count = 0, indexes = []\<rparr>"
        rio "''RGB.byte.tif''" rgb_byte 3 "[3]"
        "\<lparr>dst_idx = 4, dst = \<lparr>out_meta = stacked_kwargs, out_writes = []\<rparr>\<rparr>"
        "[2, 1, 2]" "[2, 1, 2]"]
    by (simp add: rio_open w)
qed

text \<open>
  C7 (as stated): a range whose stop exceeds the band count passes the out-of-range index
  on, for the reader to fail on. The code slices the band list instead, and a slice is
  clamped: \<^verbatim>\<open>2..9\<close> on an input with three bands resolves to the bands 2 and 3, and
  no band beyond the third is in the selection.
\<close>

theorem range_out_of_bounds_counterexample:
  "resolve_entry (indexes_of 3) (Some ''2..9'') plan0 =
     Inr \<lparr>output_count = 2, indexes = [Many [2, 3]]\<rparr>"
  by code_simp

text \<open>
  C7 (amended): for a range expression with integer tokens, whatever their values (a
  start below 1 and a stop above the band count \<open>N\<close> included), no local check rejects the
  selection and the resolution raises nothing; the selection is a slice of the input's
  band list, so every resolved index is one of the bands \<open>1, \<dots>, N\<close> and no
  out-of-range index is passed on to the reader. A stop above \<open>N\<close> is clamped to \<open>N\<close>:
  with a start of at least 1 the selection is \<open>start, \<dots>, N\<close>.
\<close>

theorem range_clamped_to_source:
  assumes "py_int a = Inr m" and "py_int b = Inr k"
  shows "\<exists>xs. resolve_entry (indexes_of N) (Some (a @ ''..'' @ b)) st =
                 Inr (st\<lparr>indexes := indexes st @ [Many xs],
                         output_count := output_count st + int (length xs)\<rparr>) \<and>
              set xs \<subseteq> {1..int N} \<and>
              (1 \<le> m \<and> int N \<le> k \<longrightarrow> xs = [m..int N])"
proof -
  let ?xs = "py_slice (indexes_of N) (m - 1) (Some k)"
  have "resolve_entry (indexes_of N) (Some (a @ ''..'' @ b)) st =
          Inr (st\<lparr>indexes := indexes st @ [Many ?xs],
                  output_count := output_count st + int (length ?xs)\<rparr>)"
    using resolve_entry_range[OF assms, of "indexes_of N" st] by (simp add: append_index_def)
  moreover have "set ?xs \<subseteq> {1..int N}"
    using py_slice_subset[of "indexes_of N" "m - 1" "Some k"] by (simp add: indexes_of_upto)
  moreover have "1 \<le> m \<and> int N \<le> k \<longrightarrow> ?xs = [m..int N]"
    by (simp add: py_slice_clamped_stop)
  ultimately show ?thesis by blast
qed

theorem range_clamped_to_source_witness:
  "py_int ''2'' = Inr 2 \<and> py_int ''9'' = Inr 9 \<and>
   resolve_entry (indexes_of 3) (Some ''2..9'') \<lparr>output_count = 0, indexes = []\<rparr> =
     Inr \<lparr>output_count = 2, indexes = [Many [2, 3]]\<rparr>"
proof -
  have a: "py_int ''2'' = Inr 2" by (simp add: int_defs)
  have b: "py_int ''9'' = Inr 9" by (simp add: int_defs)
  have u: "[2..3::int] = [2, 3]" by (simp add: upto_rec1)
  show ?thesis
    using a b u range_clamped_to_source[OF a b, of 3 "\<lparr>output_count = 0, indexes = []\<rparr>"]
    by auto
qed

text \<open>
  C8 (as stated): apart from the band count, the driver and the photometric
  interpretation, every field of the first input's metadata is unchanged. The code also
  pops the field \<^verbatim>\<open>affine\<close> and stores its value under \<^verbatim>\<open>transform\<close>: for the
  example dataset the output metadata has no \<^verbatim>\<open>affine\<close>, and its \<^verbatim>\<open>transform\<close> is
  not the input's.
\<close>

theorem metadata_verbatim_counterexample:
  "output_kwargs (ds_meta rgb_byte) ''GTiff'' 3 None = Inr stacked_kwargs \<and>
   ds_meta rgb_byte ''affine'' = Some (MOther 1) \<and> stacked_kwargs ''affine'' = None \<and>
   ds_meta rgb_byte ''transform'' = Some (MOther 0) \<and>
   stacked_kwargs ''transform'' = Some (MOther 1)"
  by (simp add: rgb_kwargs) (simp add: rgb_byte_def stacked_kwargs_def)

text \<open>
  C8 (amended): the output dataset's metadata is the first input's metadata, except that
  the band count is the accumulated output band count, the driver is the command's
  option, the photometric interpretation is set only when one is supplied, the field
  \<^verbatim>\<open>affine\<close> is removed and its value is stored under \<^verbatim>\<open>transform\<close>; every other
  field is unchanged.
\<close>

theorem metadata_from_first_input:
  assumes "result (stack io args) = Some d"
  shows "\<exists>first st.
           input args \<noteq> [] \<and> open_read io (Some (hd (input args))) = Inr first \<and>
           resolve_all io (zip_longest (input args) (bidx args)) plan0 = Inr st \<and>
           out_meta d ''count'' = Some (MInt (output_count st)) \<and>
           out_meta d ''driver'' = Some (MStr (driver args)) \<and>
           out_meta d ''photometric'' =
             (case photometric args of
                None \<Rightarrow> ds_meta first ''photometric''
              | Some ph \<Rightarrow> if ph \<noteq> [] then Some (MStr ph) else ds_meta first ''photometric'') \<and>
           out_meta d ''transform'' = ds_meta first ''affine'' \<and>
           out_meta d ''affine'' = None \<and>
           (\<forall>key. key \<notin> {''count'', ''driver'', ''photometric'', ''transform'', ''affine''} \<longrightarrow>
              out_meta d key = ds_meta first key)"
proof -
  from assms obtain st path0 rest first kwargs cs r where
    st: "resolve_all io (zip_longest (input args) (bidx args)) plan0 = Inr st" and
    inp: "input args = path0 # rest" and
    first: "open_read io (Some path0) = Inr first" and
    kw: "output_kwargs (ds_meta first) (driver args) (output_count st) (photometric args) =
           Inr kwargs" and
    ow: "open_write io (output_path args) kwargs = None" and
    cp: "copy_loop io (zip (input args) (indexes st))
           \<lparr>dst_idx = 1, dst = \<lparr>out_meta = kwargs, out_writes = []\<rparr>\<rparr> = (cs, r)" and
    d: "d = dst cs" and
    ex: "exit_code (stack io args) = (if r = None then 0 else 1)" and
    lg: "logged (stack io args) = r"
    by (rule stack_result)
  have m: "out_meta d = kwargs" using copy_loop_effect[OF cp] d by simp
  note F = output_kwargs_fields[OF kw]
  have "input args \<noteq> []" "open_read io (Some (hd (input args))) = Inr first"
    using inp first by simp_all
  moreover have "\<forall>key. key \<notin> {''count'', ''driver'', ''photometric'', ''transform'', ''affine''} \<longrightarrow>
              out_meta d key = ds_meta first key"
    using F(7) m by blast
  ultimately show ?thesis
    using st F(1-5) unfolding m by blast
qed

theorem metadata_from_first_input_witness:
  "result (stack rio two_halves) =
     Some \<lparr>out_meta = stacked_kwargs,
           out_writes = [([1, 2], Many [1, 2]), ([3], Many [3])]\<rparr> \<and>
   stacked_kwargs ''count'' = Some (MInt 3) \<and>
   stacked_kwargs ''driver'' = Some (MStr ''GTiff'') \<and>
   stacked_kwargs ''transform'' = ds_meta rgb_byte ''affine'' \<and>
   stacked_kwargs ''affine'' = None \<and>
   stacked_kwargs ''dtype'' = ds_meta rgb_byte ''dtype''"
proof -
  have r: "result (stack rio two_halves) =
     Some \<lparr>out_meta = stacked_kwargs,
           out_writes = [([1, 2], Many [1, 2]), ([3], Many [3])]\<rparr>"
    by (simp add: stack_two_halves)
  show ?thesis
    using r metadata_from_first_input[OF r]
    by (simp add: stacked_kwargs_def rgb_byte_def)
qed

text \<open>
  C9 (as stated): the command ends with exit code 1, the error logged, when an exception
  is raised at any point, and no exception escapes unhandled. The try statement starts
  at line 75, after three statements: when \<^verbatim>\<open>import numpy\<close> (line 71) raises, the
  exception leaves the command; the handler never runs, nothing is logged and
  \<^verbatim>\<open>sys.exit\<close> is not called.
\<close>

theorem escaping_exception_counterexample:
  "stack_command numpy_missing rio two_halves = Inl ImportError"
  by (simp add: stack_command_def numpy_missing_def plain_def)

text \<open>
  C9 (amended): the command ends with exit code 0 and nothing logged when no step inside
  the try statement raises, and with exit code 1, after logging the exception, when a
  step inside the try statement raises; it ends in no other way through \<^verbatim>\<open>sys.exit\<close>.
  An exception raised outside the try statement is not handled: one raised by the
  statements before it (lines 71 to 74) leaves the command with nothing logged, and so
  does one raised by the logging call of the handler. The exceptions of the try statement
  are exactly those of its steps, each reached once the steps before it have succeeded:
  entering and leaving the driver environment; for each entry of the first loop, opening
  and closing the input and resolving the selection (the \<^verbatim>\<open>ValueError\<close> of the
  unpacking, or what \<^verbatim>\<open>int\<close> raises on a field); \<^verbatim>\<open>input[0]\<close> on no input;
  opening and closing the first input and popping \<^verbatim>\<open>affine\<close>; creating the output;
  for each entry of the copy loop, opening, reading, writing and closing; closing the
  output. An exception raised on leaving a \<^verbatim>\<open>with\<close> block replaces the one of the
  block. The statement holds for every \<^verbatim>\<open>int\<close>, every library and every
  environment.
\<close>

theorem exceptions_of_the_command:
  "(import_numpy env = Some e \<longrightarrow> stack_command env io args = Inl e) \<and>
   (import_numpy env = None \<and> verbosity_of (ctx_obj env) = Inl e \<longrightarrow>
      stack_command env io args = Inl e) \<and>
   (import_numpy env = None \<and> verbosity_of (ctx_obj env) = Inr v \<and> get_logger env = Some e \<longrightarrow>
      stack_command env io args = Inl e) \<and>
   (import_numpy env = None \<and> verbosity_of (ctx_obj env) = Inr v \<and> get_logger env = None \<longrightarrow>
      (fst (try_block env io args v) = None \<longrightarrow>
         stack_command env io args =
           Inr \<lparr>exit_code = 0, logged = None, result = snd (try_block env io args v)\<rparr>) \<and>
      (fst (try_block env io args v) = Some e \<and> log_exception env e = None \<longrightarrow>
         stack_command env io args =
           Inr \<lparr>exit_code = 1, logged = Some e, result = snd (try_block env io args v)\<rparr>) \<and>
      (fst (try_block env io args v) = Some e \<and> log_exception env e = Some e' \<longrightarrow>
         stack_command env io args = Inl e')) \<and>
   (stack_command env io args = Inr out \<longrightarrow>
      exit_code out = 0 \<and> logged out = None \<or>
      exit_code out = 1 \<and> (\<exists>x. logged out = Some x)) \<and>
   (fst (try_block env io args v) = Some e \<longleftrightarrow>
      enter_drivers env (2 < v) = Some e \<or>
      enter_drivers env (2 < v) = None \<and>
        (exit_drivers env = Some e \<or>
         exit_drivers env = None \<and> fst (stack_body env io args) = Some e)) \<and>
   (fst (stack_body env io args) = Some e \<longleftrightarrow>
      resolve_all_with env io (zip_longest (input args) (bidx args)) plan0 = Inl e \<or>
      (\<exists>st. resolve_all_with env io (zip_longest (input args) (bidx args)) plan0 = Inr st \<and>
         (input args = [] \<and> e = IndexError \<or>
          (\<exists>path0 rest. input args = path0 # rest \<and>
             (open_read io (Some path0) = Inl e \<or>
              (\<exists>first. open_read io (Some path0) = Inr first \<and>
                 (close_input env first = Some e \<or>
                  close_input env first = None \<and>
                    (ds_meta first ''affine'' = None \<and> e = KeyError \<or>
                     (\<exists>kwargs.
                        output_kwargs (ds_meta first) (driver args) (output_count st)
                          (photometric args) = Inr kwargs \<and>
                        (open_write io (output_path args) kwargs = Some e \<or>
                         open_write io (output_path args) kwargs = None \<and>
                           (\<exists>cs raised.
                              copy_loop_with env io (zip (input args) (indexes st))
                                \<lparr>dst_idx = 1,
                                 dst = \<lparr>out_meta = kwargs, out_writes = []\<rparr>\<rparr> =
                                (cs, raised) \<and>
                              (close_output env (dst cs) = Some e \<or>
                               close_output env (dst cs) = None \<and>
                                 raised = Some e)))))))))))) \<and>
   (resolve_all_with env io pairs st0 = Inl e \<longleftrightarrow>
      (\<exists>pre path item post st1.
         pairs = pre @ (path, item) # post \<and>
         resolve_all_with env io pre st0 = Inr st1 \<and>
         (open_read io path = Inl e \<or>
          (\<exists>src. open_read io path = Inr src \<and>
             (close_input env src = Some e \<or>
              close_input env src = None \<and>
                resolve_entry_with (int_of env) (ds_indexes src) item st1 = Inl e))))) \<and>
   (resolve_entry_with f src_indexes selection st0 = Inl e \<longleftrightarrow>
      (\<exists>it. selection = Some it \<and>
         (py_contains ''..'' it \<and>
            (case py_split ''..'' it of
               [a, b] \<Rightarrow>
                 a \<noteq> [] \<and> f a = Inl e \<or>
                 (a = [] \<or> (\<exists>k. f a = Inr k)) \<and> b \<noteq> [] \<and> f b = Inl e
             | _ \<Rightarrow> e = ValueError) \<or>
          \<not> py_contains ''..'' it \<and>
            (\<exists>pre t post. py_split '','' it = pre @ t # post \<and>
               (\<forall>u\<in>set pre. \<exists>k. f u = Inr k) \<and> f t = Inl e)))) \<and>
   (snd (copy_loop_with env io entries cs0) = Some e \<longleftrightarrow>
      (\<exists>pre path index post cs1.
         entries = pre @ (path, index) # post \<and>
         copy_loop_with env io pre cs0 = (cs1, None) \<and>
         snd (copy_entry_with env io path index cs1) = Some e)) \<and>
   (snd (copy_entry_with env io name band cs0) = Some e \<longleftrightarrow>
      open_read io (Some name) = Inl e \<or>
      (\<exists>src. open_read io (Some name) = Inr src \<and>
         (close_input env src = Some e \<or>
          close_input env src = None \<and>
            (ds_read src band = Inl e \<or>
             (\<exists>data. ds_read src band = Inr data \<and>
                write_bands io (dst cs0) data
                  (case band of
                     Single i \<Rightarrow> Single (dst_idx cs0)
                   | Many xs \<Rightarrow> Many [dst_idx cs0..dst_idx cs0 + int (length xs) - 1]) =
                Some e)))))"
proof (intro conjI)
  show "import_numpy env = Some e \<longrightarrow> stack_command env io args = Inl e"
    and "import_numpy env = None \<and> verbosity_of (ctx_obj env) = Inl e \<longrightarrow>
      stack_command env io args = Inl e"
    and "import_numpy env = None \<and> verbosity_of (ctx_obj env) = Inr v \<and>
      get_logger env = Some e \<longrightarrow> stack_command env io args = Inl e"
    using stack_command_prelude[of env e io args v] by blast+
  show "import_numpy env = None \<and> verbosity_of (ctx_obj env) = Inr v \<and>
      get_logger env = None \<longrightarrow>
      (fst (try_block env io args v) = None \<longrightarrow>
         stack_command env io args =
           Inr \<lparr>exit_code = 0, logged = None, result = snd (try_block env io args v)\<rparr>) \<and>
      (fst (try_block env io args v) = Some e \<and> log_exception env e = None \<longrightarrow>
         stack_command env io args =
           Inr \<lparr>exit_code = 1, logged = Some e, result = snd (try_block env io args v)\<rparr>) \<and>
      (fst (try_block env io args v) = Some e \<and> log_exception env e = Some e' \<longrightarrow>
         stack_command env io args = Inl e')"
  proof
    assume "import_numpy env = None \<and> verbosity_of (ctx_obj env) = Inr v \<and>
      get_logger env = None"
    then have p: "import_numpy env = None" "verbosity_of (ctx_obj env) = Inr v"
      "get_logger env = None" by simp_all
    show "(fst (try_block env io args v) = None \<longrightarrow>
         stack_command env io args =
           Inr \<lparr>exit_code = 0, logged = None, result = snd (try_block env io args v)\<rparr>) \<and>
      (fst (try_block env io args v) = Some e \<and> log_exception env e = None \<longrightarrow>
         stack_command env io args =
           Inr \<lparr>exit_code = 1, logged = Some e, result = snd (try_block env io args v)\<rparr>) \<and>
      (fst (try_block env io args v) = Some e \<and> log_exception env e = Some e' \<longrightarrow>
         stack_command env io args = Inl e')"
      by (intro conjI) (rule stack_command_handler[OF p])+
  qed
  show "stack_command env io args = Inr out \<longrightarrow>
      exit_code out = 0 \<and> logged out = None \<or>
      exit_code out = 1 \<and> (\<exists>x. logged out = Some x)"
    using stack_command_exits[of env io args out] by blast
qed (rule try_block_raises stack_body_raises resolve_all_with_raises
    resolve_entry_with_raises copy_loop_with_raises copy_entry_with_raises)+

text \<open>
  Runs on the example dataset: a success, a selection that is no expression, a band
  that does not exist, a library that refuses to write, an output that fails to close,
  and \<^verbatim>\<open>numpy\<close> missing.
\<close>

theorem exceptions_of_the_command_witness:
  "stack_command plain rio two_halves =
     Inr \<lparr>exit_code = 0, logged = None,
          result = Some \<lparr>out_meta = stacked_kwargs,
                         out_writes = [([1, 2], Many [1, 2]), ([3], Many [3])]\<rparr>\<rparr> \<and>
   stack_command plain rio no_expression =
     Inr \<lparr>exit_code = 1, logged = Some ValueError, result = None\<rparr> \<and>
   stack_command plain rio no_such_band =
     Inr \<lparr>exit_code = 1, logged = Some IndexError,
          result = Some \<lparr>out_meta = stacked_kwargs,
                         out_writes = [([2, 1], Many [1, 2])]\<rparr>\<rparr> \<and>
   stack_command plain read_only two_halves =
     Inr \<lparr>exit_code = 1, logged = Some IOFailure,
          result = Some \<lparr>out_meta = stacked_kwargs, out_writes = []\<rparr>\<rparr> \<and>
   stack_command close_fails rio two_halves =
     Inr \<lparr>exit_code = 1, logged = Some IOFailure,
          result = Some \<lparr>out_meta = stacked_kwargs,
                         out_writes = [([1, 2], Many [1, 2]), ([3], Many [3])]\<rparr>\<rparr> \<and>
   stack_command numpy_missing rio two_halves = Inl ImportError"
proof -
  have p: "import_numpy plain = None \<and> verbosity_of (ctx_obj plain) = Inr 2 \<and>
      get_logger plain = None"
    by (simp add: plain_fields verbosity_of_def)
  have q: "import_numpy close_fails = None \<and> verbosity_of (ctx_obj close_fails) = Inr 2 \<and>
      get_logger close_fails = None"
    by (simp add: close_fails_fields verbosity_of_def)
  have 1: "stack_command plain rio two_halves =
     Inr \<lparr>exit_code = 0, logged = None,
          result = Some \<lparr>out_meta = stacked_kwargs,
                         out_writes = [([1, 2], Many [1, 2]), ([3], Many [3])]\<rparr>\<rparr>"
    using exceptions_of_the_command[where env = plain and io = rio and args = two_halves
          and v = 2 and e = IOFailure, THEN conjunct2, THEN conjunct2, THEN conjunct2,
          THEN conjunct1, THEN mp, OF p]
    by (simp add: try_block_plain stack_two_halves)
  have 2: "stack_command plain rio no_expression =
     Inr \<lparr>exit_code = 1, logged = Some ValueError, result = None\<rparr>"
    using exceptions_of_the_command[where env = plain and io = rio and args = no_expression
          and v = 2 and e = ValueError, THEN conjunct2, THEN conjunct2, THEN conjunct2,
          THEN conjunct1, THEN mp, OF p]
    by (simp add: try_block_plain stack_no_expression plain_fields)
  have 3: "stack_command plain rio no_such_band =
     Inr \<lparr>exit_code = 1, logged = Some IndexError,
          result = Some \<lparr>out_meta = stacked_kwargs,
                         out_writes = [([2, 1], Many [1, 2])]\<rparr>\<rparr>"
    using exceptions_of_the_command[where env = plain and io = rio and args = no_such_band
          and v = 2 and e = IndexError, THEN conjunct2, THEN conjunct2, THEN conjunct2,
          THEN conjunct1, THEN mp, OF p]
    by (simp add: try_block_plain stack_no_such_band plain_fields)
  have 4: "stack_command plain read_only two_halves =
     Inr \<lparr>exit_code = 1, logged = Some IOFailure,
          result = Some \<lparr>out_meta = stacked_kwargs, out_writes = []\<rparr>\<rparr>"
    using exceptions_of_the_command[where env = plain and io = read_only and args = two_halves
          and v = 2 and e = IOFailure, THEN conjunct2, THEN conjunct2, THEN conjunct2,
          THEN conjunct1, THEN mp, OF p]
    by (simp add: try_block_plain stack_read_only plain_fields)
  have 5: "stack_command close_fails rio two_halves =
     Inr \<lparr>exit_code = 1, logged = Some IOFailure,
          result = Some \<lparr>out_meta = stacked_kwargs,
                         out_writes = [([1, 2], Many [1, 2]), ([3], Many [3])]\<rparr>\<rparr>"
    using exceptions_of_the_command[where env = close_fails and io = rio and args = two_halves
          and v = 2 and e = IOFailure, THEN conjunct2, THEN conjunct2, THEN conjunct2,
          THEN conjunct1, THEN mp, OF q]
    by (simp add: try_block_close_fails close_fails_fields)
  have 6: "stack_command numpy_missing rio two_halves = Inl ImportError"
    using exceptions_of_the_command[where env = numpy_missing and io = rio
          and args = two_halves and e = ImportError, THEN conjunct1]
    by (simp add: numpy_missing_def plain_def)
  from 1 2 3 4 5 6 show ?thesis by blast
qed

text \<open>
  C10: every range expression that resolves at all resolves to a list. For a band \<open>K\<close>
  of an input with \<open>N\<close> bands, the range from \<open>K\<close> to \<open>K\<close> resolves to the one-element
  list and the single token \<open>K\<close> to the scalar, both adding one band. The list is copied
  by the batch path (read with a list, written to a list of destination bands) and the
  scalar by the single-band path; both read the source band \<open>K\<close>, write the destination
  band at the cursor and advance the cursor by one.
\<close>

theorem single_band_range_is_list:
  "(py_contains ''..'' item \<and> resolve_entry src_indexes (Some item) st = Inr st' \<longrightarrow>
      (\<exists>xs. indexes st' = indexes st @ [Many xs] \<and>
            output_count st' = output_count st + int (length xs))) \<and>
   (py_int t = Inr (int K) \<and> 1 \<le> K \<and> K \<le> N \<longrightarrow>
      resolve_entry (indexes_of N) (Some (t @ ''..'' @ t)) st =
        Inr (st\<lparr>indexes := indexes st @ [Many [int K]],
                output_count := output_count st + 1\<rparr>) \<and>
      resolve_entry (indexes_of N) (Some t) st =
        Inr (st\<lparr>indexes := indexes st @ [Single (int K)],
                output_count := output_count st + 1\<rparr>)) \<and>
   (open_read io (Some path) = Inr src \<and> ds_read src (Many [k]) = Inr batch \<and>
    write_bands io (dst cs) batch (Many [dst_idx cs]) = None \<longrightarrow>
      copy_entry io path (Many [k]) cs =
        (cs\<lparr>dst := (dst cs)\<lparr>out_writes := out_writes (dst cs) @
                   [(batch, Many [dst_idx cs])]\<rparr>,
            dst_idx := dst_idx cs + 1\<rparr>, None)) \<and>
   (open_read io (Some path) = Inr src \<and> ds_read src (Single k) = Inr band \<and>
    write_bands io (dst cs) band (Single (dst_idx cs)) = None \<longrightarrow>
      copy_entry io path (Single k) cs =
        (cs\<lparr>dst := (dst cs)\<lparr>out_writes := out_writes (dst cs) @
                   [(band, Single (dst_idx cs))]\<rparr>,
            dst_idx := dst_idx cs + 1\<rparr>, None)) \<and>
   bands (Many [k]) = bands (Single k) \<and>
   bands (Many [dst_idx cs]) = bands (Single (dst_idx cs))"
proof (intro conjI impI)
  assume "py_contains ''..'' item \<and> resolve_entry src_indexes (Some item) st = Inr st'"
  then show "\<exists>xs. indexes st' = indexes st @ [Many xs] \<and>
                  output_count st' = output_count st + int (length xs)"
    using resolve_entry_range_list by blast
next
  assume h: "py_int t = Inr (int K) \<and> 1 \<le> K \<and> K \<le> N"
  then have s: "py_slice (indexes_of N) (int K - 1) (Some (int K)) = [int K]"
    using py_slice_indexes_of[of K K N] by simp
  from h have "resolve_entry (indexes_of N) (Some (t @ ''..'' @ t)) st =
      Inr (append_index (Many (py_slice (indexes_of N) (int K - 1) (Some (int K))))
             (int (length (py_slice (indexes_of N) (int K - 1) (Some (int K))))) st)"
    by (intro resolve_entry_range) auto
  then show "resolve_entry (indexes_of N) (Some (t @ ''..'' @ t)) st =
        Inr (st\<lparr>indexes := indexes st @ [Many [int K]],
                output_count := output_count st + 1\<rparr>)"
    by (simp add: s append_index_def)
  from h show "resolve_entry (indexes_of N) (Some t) st =
        Inr (st\<lparr>indexes := indexes st @ [Single (int K)],
                output_count := output_count st + 1\<rparr>)"
    by (simp add: resolve_entry_token append_index_def)
next
  assume "open_read io (Some path) = Inr src \<and> ds_read src (Many [k]) = Inr batch \<and>
    write_bands io (dst cs) batch (Many [dst_idx cs]) = None"
  then show "copy_entry io path (Many [k]) cs =
        (cs\<lparr>dst := (dst cs)\<lparr>out_writes := out_writes (dst cs) @
                   [(batch, Many [dst_idx cs])]\<rparr>,
            dst_idx := dst_idx cs + 1\<rparr>, None)"
    using copy_entry_many[of io path src "[k]" batch cs] by simp
next
  assume "open_read io (Some path) = Inr src \<and> ds_read src (Single k) = Inr band \<and>
    write_bands io (dst cs) band (Single (dst_idx cs)) = None"
  then show "copy_entry io path (Single k) cs =
        (cs\<lparr>dst := (dst cs)\<lparr>out_writes := out_writes (dst cs) @
                   [(band, Single (dst_idx cs))]\<rparr>,
            dst_idx := dst_idx cs + 1\<rparr>, None)"
    using copy_entry_single[of io path src k band cs] by simp
qed simp_all

theorem single_band_range_is_list_witness:
  "py_contains ''..'' ''2..2'' \<and> py_int ''2'' = Inr (int 2) \<and>
   resolve_entry (indexes_of 3) (Some ''2..2'') \<lparr>output_count = 0, indexes = []\<rparr> =
     Inr \<lparr>output_count = 1, indexes = [Many [2]]\<rparr> \<and>
   resolve_entry (indexes_of 3) (Some ''2'') \<lparr>output_count = 0, indexes = []\<rparr> =
     Inr \<lparr>output_count = 1, indexes = [Single 2]\<rparr> \<and>
   copy_entry rio ''RGB.byte.tif'' (Many [2])
       \<lparr>dst_idx = 1, dst = \<lparr>out_meta = stacked_kwargs, out_writes = []\<rparr>\<rparr> =
     (\<lparr>dst_idx = 2, dst = \<lparr>out_meta = stacked_kwargs, out_writes = [([2], Many [1])]\<rparr>\<rparr>,
      None) \<and>
   copy_entry rio ''RGB.byte.tif'' (Single 2)
       \<lparr>dst_idx = 1, dst = \<lparr>out_meta = stacked_kwargs, out_writes = []\<rparr>\<rparr> =
     (\<lparr>dst_idx = 2, dst = \<lparr>out_meta = stacked_kwargs, out_writes = [([2], Single 1)]\<rparr>\<rparr>,
      None)"
proof -
  have c: "py_contains ''..'' ''2..2''" by simp
  have t: "py_int ''2'' = Inr (int 2)" by (simp add: int_defs)
  have r: "ds_read rgb_byte (Many [2]) = Inr [2]" "ds_read rgb_byte (Single 2) = Inr [2]"
    by (simp_all add: rgb_byte_def)
  have w: "write_bands rio d data target = None" for d data target
    by (simp add: rio_def)
  show ?thesis
    using c t r
      single_band_range_is_list[of "''2..2''" "indexes_of 3"
        "\<lparr>output_count = 0, indexes = []\<rparr>"
        "\<lparr>output_count = 1, indexes = [Many [2]]\<rparr>" "''2''" 2 3 rio "''RGB.byte.tif''"
        rgb_byte 2 "[2]"
        "\<lparr>dst_idx = 1, dst = \<lparr>out_meta = stacked_kwargs, out_writes = []\<rparr>\<rparr>" "[2]"]
    by (simp add: rio_open w)
qed

end
